theory Spec2Isabelle
  imports Complex_Main "HOL-Library.Word"
begin

unbundle bit_operations_syntax

section \<open>Data model of shenidam.c\<close>

text \<open>
  The embedding follows \<^verbatim>\<open>src/shenidam.c\<close> function by function.

  \<^item> \<^verbatim>\<open>size_t\<close> is a 64-bit word and \<^verbatim>\<open>int\<close> a 32-bit word (read with \<open>sint\<close>);
    conversions between the two are \<open>ucast\<close> (truncation) and \<open>scast\<close> (sign extension).
  \<^item> \<^verbatim>\<open>float\<close> and \<^verbatim>\<open>double\<close> values are idealised as real numbers, complex samples as
    complex numbers: rounding error, infinities and NaN are not represented. The
    exception is the rescaling of the result (lines 464-465), whose \<^verbatim>\<open>double\<close> operations
    are rounded as IEEE 754 arithmetic rounds them, since the returned numbers depend on
    it.
  \<^item> A buffer is the list of its elements. Where the C code passes a pointer together
    with a count, the model passes the list together with the count and treats a read
    past the end of the list as undefined behaviour.
  \<^item> A computation either finishes with a value, leaves through \<^verbatim>\<open>longjmp(jb,0)\<close>
    (taken by \<^verbatim>\<open>ehmalloc\<close> and \<^verbatim>\<open>fft_ehmalloc\<close> when the allocator returns NULL), or does
    not return normally at all (undefined behaviour or a loop that never ends).
\<close>

type_synonym sample_d = real
type_synonym sample_f = complex
type_synonym size_t = "64 word"
type_synonym c_int = "32 word"

text \<open>
  The result codes and the sample format tags are macros of \<^verbatim>\<open>shenidam.h\<close>, which is
  not among the sources. Only their being distinct matters, so they are constructors;
  \<open>FORMAT_OTHER\<close> stands for every tag value that is none of the seven macros.
\<close>

datatype status =
  SUCCESS | INVALID_ARGUMENT | ALREADY_SET_BASE_SIGNAL | BASE_SIGNAL_NOT_SET | ALLOCATION_ERROR

datatype sample_format =
  FORMAT_BYTE | FORMAT_SHORT | FORMAT_INT | FORMAT_LONG | FORMAT_LONG_LONG
  | FORMAT_DOUBLE | FORMAT_SINGLE | FORMAT_OTHER int

text \<open>
  A filter callback \<^verbatim>\<open>void cb(sample_f* spectrum, size_t bins, void* data)\<close> rewrites the
  spectrum in place; it is given by the value it leaves in each bin.
\<close>

type_synonym 'ctx frequential_filter_cb = "sample_f list \<Rightarrow> size_t \<Rightarrow> 'ctx \<Rightarrow> nat \<Rightarrow> sample_f"

text \<open>
  \<^verbatim>\<open>shenidam_t_impl\<close>. \<open>base = None\<close> is the NULL pointer. \<open>frequential_filters\<close> is the
  array of callbacks with its NULL entries (\<open>None\<close>); \<open>frequential_filter_data\<close> is the
  array of contexts, empty when the pointer is NULL.
\<close>

record 'ctx shenidam_t_impl =
  base_sample_rate :: real
  base_real_sample_rate :: real
  base :: "sample_d list option"
  base_num_samples :: size_t
  frequential_filters :: "'ctx frequential_filter_cb option list"
  frequential_filter_data :: "'ctx list"
  num_threads :: c_int

datatype 'a comp = Done 'a | Longjmp | Undef

fun bind_comp :: "'a comp \<Rightarrow> ('a \<Rightarrow> 'b comp) \<Rightarrow> 'b comp" where
  "bind_comp (Done x) f = f x"
| "bind_comp Longjmp f = Longjmp"
| "bind_comp Undef f = Undef"

text \<open>
  What the code takes from outside itself:
  \<^item> \<open>malloc_ok\<close>, \<open>fftwf_malloc_ok\<close>: whether \<^verbatim>\<open>malloc\<close>, \<^verbatim>\<open>fftwf_malloc\<close> satisfy a request
    of that many bytes during the call;
  \<^item> \<open>src_simple\<close>: libsamplerate's converter, from the input frames, the ratio and the
    capacity of the output buffer to the frames it generated;
  \<^item> \<open>fftwf_r2c\<close>, \<open>fftwf_c2r\<close>: the FFTW transforms of a given length, by output index;
  \<^item> \<open>SHENIDAM_PARALLEL_OMP\<close> (a macro of \<^verbatim>\<open>config.h\<close>) and the value of
    \<^verbatim>\<open>omp_get_num_threads()\<close>;
  \<^item> \<open>uninit_size_t\<close>: the indeterminate contents of \<^verbatim>\<open>buffer_sizes[i]\<close> as allocated;
  \<^item> \<open>pointer_bits\<close>: the two floats that the bytes of the pointer \<^verbatim>\<open>buffers[i]\<close> read as.
\<close>

record env =
  malloc_ok :: "size_t \<Rightarrow> bool"
  fftwf_malloc_ok :: "size_t \<Rightarrow> bool"
  src_simple :: "sample_d list \<Rightarrow> real \<Rightarrow> size_t \<Rightarrow> sample_d list"
  fftwf_r2c :: "nat \<Rightarrow> sample_d list \<Rightarrow> nat \<Rightarrow> sample_f"
  fftwf_c2r :: "nat \<Rightarrow> sample_f list \<Rightarrow> nat \<Rightarrow> sample_d"
  SHENIDAM_PARALLEL_OMP :: bool
  omp_get_num_threads :: nat
  uninit_size_t :: "nat \<Rightarrow> size_t"
  pointer_bits :: "nat \<Rightarrow> sample_d \<times> sample_d"

section \<open>Allocation and numeric conversions\<close>

definition ehmalloc :: "env \<Rightarrow> size_t \<Rightarrow> unit comp" where
  "ehmalloc e sz = (if malloc_ok e sz then Done () else Longjmp)"

definition fft_ehmalloc :: "env \<Rightarrow> size_t \<Rightarrow> unit comp" where
  "fft_ehmalloc e sz = (if fftwf_malloc_ok e sz then Done () else Longjmp)"

text \<open>C's \<^verbatim>\<open>round\<close>: to the nearest integer, halfway cases away from zero.\<close>

definition c_round :: "real \<Rightarrow> int" where
  "c_round x = (if 0 \<le> x then \<lfloor>x + 1 / 2\<rfloor> else \<lceil>x - 1 / 2\<rceil>)"

text \<open>
  Conversion of an integral \<^verbatim>\<open>double\<close> to \<^verbatim>\<open>size_t\<close> and to \<^verbatim>\<open>int\<close>: undefined when the
  value is out of the target's range.
\<close>

definition size_t_of_double :: "int \<Rightarrow> size_t option" where
  "size_t_of_double v = (if 0 \<le> v \<and> v < 2 ^ 64 then Some (word_of_int v) else None)"

definition int_of_double :: "int \<Rightarrow> c_int option" where
  "int_of_double v = (if - (2 ^ 31) \<le> v \<and> v < 2 ^ 31 then Some (word_of_int v) else None)"

text \<open>
  Rounding to \<^verbatim>\<open>double\<close> (IEEE 754 binary64, round to nearest, ties to the even
  significand, \<^verbatim>\<open>FLT_EVAL_METHOD\<close> 0). A nonzero real \<open>x\<close> with
  \<open>2 ^ e \<le> \<bar>x\<bar> < 2 ^ (e + 1)\<close> is rounded to a multiple of \<open>2 ^ (e - 52)\<close> (53 significant
  bits); below \<open>2 ^ - 1022\<close> the spacing stays \<open>2 ^ - 1074\<close> (gradual underflow). A result
  of magnitude \<open>2 ^ 1024\<close> or more is an infinity in C: it is \<open>None\<close> here, because the
  only use made of it is a conversion to an integer, which is then undefined.
\<close>

definition round_to_even :: "real \<Rightarrow> int" where
  "round_to_even x =
     (let f = \<lfloor>x\<rfloor> in
      if x - of_int f < 1 / 2 then f
      else if 1 / 2 < x - of_int f then f + 1
      else if even f then f else f + 1)"

definition double_round :: "real \<Rightarrow> real option" where
  "double_round x =
     (if x = 0 then Some 0
      else
        let ulp = 2 powi (max (- 1022) \<lfloor>log 2 \<bar>x\<bar>\<rfloor> - 52);
            y = real_of_int (round_to_even (x / ulp)) * ulp
        in if 2 ^ 1024 \<le> \<bar>y\<bar> then None else Some y)"

section \<open>Signal preparation\<close>

text \<open>
  \<^verbatim>\<open>normalize\<close> (lines 109-137). The first loop accumulates the sum and the sum of
  squares; \<open>mean\<close> is then divided by the count, \<open>var\<close> is not.
\<close>

definition normalize_sums :: "sample_d list \<Rightarrow> real \<times> real" where
  "normalize_sums samples = fold (\<lambda>x (mean, var). (mean + x, var + x * x)) samples (0, 0)"

definition normalize_samples :: "sample_d list \<Rightarrow> sample_d list" where
  "normalize_samples samples =
     (case normalize_sums samples of (mean0, var0) \<Rightarrow>
        let mean = mean0 / real (length samples);
            var = sqrt (var0 - mean * mean)
        in if var = 0 then map (\<lambda>x. x - mean) samples
           else map (\<lambda>x. (x - mean) / var) samples)"

text \<open>
  \<^verbatim>\<open>convert_to_samples\<close> (lines 205-229). The buffer is allocated first; an unknown
  format frees it again and returns 1 (\<open>Done None\<close>). The element casts to \<^verbatim>\<open>float\<close>
  keep the value. The byte count \<open>4 * num_samples\<close> is computed in \<^verbatim>\<open>size_t\<close>: from
  \<open>2 ^ 62\<close> samples on it wraps, the buffer is shorter than \<open>num_samples\<close> elements,
  and the element loop (for \<^verbatim>\<open>FORMAT_SINGLE\<close>, the loop of \<^verbatim>\<open>normalize\<close> that both
  callers run next) goes past its end.
\<close>

definition read_samples :: "real list \<Rightarrow> size_t \<Rightarrow> sample_d list option comp" where
  "read_samples samples_in num_samples =
     (if 2 ^ 62 \<le> unat num_samples then Undef
      else if length samples_in < unat num_samples then Undef
      else Done (Some (take (unat num_samples) samples_in)))"

definition convert_to_samples ::
  "env \<Rightarrow> sample_format \<Rightarrow> real list \<Rightarrow> size_t \<Rightarrow> sample_d list option comp" where
  "convert_to_samples e format samples_in num_samples =
     bind_comp (ehmalloc e (4 * num_samples)) (\<lambda>_.
       if format = FORMAT_SINGLE then read_samples samples_in num_samples
       else (case format of
               FORMAT_BYTE \<Rightarrow> read_samples samples_in num_samples
             | FORMAT_SHORT \<Rightarrow> read_samples samples_in num_samples
             | FORMAT_INT \<Rightarrow> read_samples samples_in num_samples
             | FORMAT_LONG \<Rightarrow> read_samples samples_in num_samples
             | FORMAT_LONG_LONG \<Rightarrow> read_samples samples_in num_samples
             | FORMAT_DOUBLE \<Rightarrow> read_samples samples_in num_samples
             | _ \<Rightarrow> Done None))"

section \<open>Resampling\<close>

text \<open>\<^verbatim>\<open>resample\<close> (lines 231-242): the capacity comes in and the generated count goes out
  through \<^verbatim>\<open>*num_samples_out\<close>.\<close>

definition resample ::
  "env \<Rightarrow> sample_d list \<Rightarrow> size_t \<Rightarrow> real \<Rightarrow> size_t \<Rightarrow> (sample_d list \<times> size_t) comp" where
  "resample e samples_in num_samples_in sample_rate_ratio num_samples_out =
     bind_comp (ehmalloc e (num_samples_out * 4)) (\<lambda>_.
       if length samples_in < unat num_samples_in then Undef
       else
         let data_out = src_simple e (take (unat num_samples_in) samples_in)
                          sample_rate_ratio num_samples_out
         in Done (data_out, word_of_nat (length data_out)))"

text \<open>
  \<^verbatim>\<open>resample_parallel\<close> (lines 243-283). Without \<^verbatim>\<open>SHENIDAM_PARALLEL_OMP\<close>, or with one
  thread, it is \<^verbatim>\<open>resample\<close>. Otherwise thread \<open>i\<close> resamples its slice
  with the capacity found in the uninitialised \<^verbatim>\<open>buffer_sizes[i]\<close>, and the final
  \<^verbatim>\<open>memcpy\<close> for thread \<open>i\<close> reads \<^verbatim>\<open>buffer_sizes[i]\<close> floats starting at the address
  \<^verbatim>\<open>&buffers[i]\<close>, that is from the table of pointers (two floats per 8-byte pointer),
  which is undefined once it runs past the table's end. A \<^verbatim>\<open>longjmp\<close> out of the
  parallel region is undefined as well, and so is the use of a NULL from one of the
  unchecked \<^verbatim>\<open>malloc\<close> calls (the two tables of \<open>8 * n\<close> bytes, the table of
  \<open>8 * (n + 1)\<close> bytes and the result). With 0 threads the slice size is a division by
  zero.
\<close>

definition slice_of :: "sample_d list \<Rightarrow> size_t \<Rightarrow> nat \<Rightarrow> nat \<Rightarrow> sample_d list \<times> size_t" where
  "slice_of samples_in num_samples_in n i =
     (let slice_size = num_samples_in div word_of_nat n;
          current_slice_size =
            (if i = n - 1 then num_samples_in - word_of_nat i * slice_size else slice_size)
      in (drop (i * unat slice_size) samples_in, current_slice_size))"

fun thread_outputs ::
  "env \<Rightarrow> sample_d list \<Rightarrow> size_t \<Rightarrow> real \<Rightarrow> nat \<Rightarrow> nat list \<Rightarrow> (sample_d list \<times> size_t) list comp" where
  "thread_outputs e samples_in num_samples_in ratio n [] = Done []"
| "thread_outputs e samples_in num_samples_in ratio n (i # is) =
     (case slice_of samples_in num_samples_in n i of (chunk, current_slice_size) \<Rightarrow>
        (case resample e chunk current_slice_size ratio (uninit_size_t e i) of
           Done r \<Rightarrow> bind_comp (thread_outputs e samples_in num_samples_in ratio n is)
                       (\<lambda>rs. Done (r # rs))
         | Longjmp \<Rightarrow> Undef
         | Undef \<Rightarrow> Undef))"

definition pointer_table :: "env \<Rightarrow> nat \<Rightarrow> sample_d list" where
  "pointer_table e n =
     concat (map (\<lambda>i. [fst (pointer_bits e i), snd (pointer_bits e i)]) [0..<n])"

fun copy_from_table :: "sample_d list \<Rightarrow> nat \<Rightarrow> size_t list \<Rightarrow> sample_d list comp" where
  "copy_from_table table i [] = Done []"
| "copy_from_table table i (buffer_size # sizes) =
     (if length table < 2 * i + unat buffer_size then Undef
      else bind_comp (copy_from_table table (i + 1) sizes)
             (\<lambda>rest. Done (take (unat buffer_size) (drop (2 * i) table) @ rest)))"

definition resample_parallel ::
  "env \<Rightarrow> sample_d list \<Rightarrow> size_t \<Rightarrow> real \<Rightarrow> size_t \<Rightarrow> (sample_d list \<times> size_t) comp" where
  "resample_parallel e samples_in num_samples_in sample_rate_ratio num_samples_out =
     (if \<not> SHENIDAM_PARALLEL_OMP e then
        resample e samples_in num_samples_in sample_rate_ratio num_samples_out
      else if omp_get_num_threads e = 1 then
        resample e samples_in num_samples_in sample_rate_ratio num_samples_out
      else if omp_get_num_threads e = 0 then Undef
      else if \<not> malloc_ok e (8 * word_of_nat (omp_get_num_threads e)) then Undef
      else if \<not> malloc_ok e (8 * (word_of_nat (omp_get_num_threads e) + 1)) then Undef
      else
        bind_comp (thread_outputs e samples_in num_samples_in sample_rate_ratio
                     (omp_get_num_threads e) [0..<omp_get_num_threads e]) (\<lambda>outs.
          let buffer_sizes = map snd outs;
              total = sum_list buffer_sizes
          in if malloc_ok e (4 * total) then
               bind_comp (copy_from_table (pointer_table e (omp_get_num_threads e)) 0 buffer_sizes)
                 (\<lambda>res. Done (res, total))
             else Undef))"

section \<open>The aligner\<close>

text \<open>
  \<^verbatim>\<open>fft\<close> and \<^verbatim>\<open>ifft\<close> (lines 138-184). The result buffer comes from \<^verbatim>\<open>ehmalloc\<close>. In
  \<^verbatim>\<open>fft\<close> the two work buffers come from the unchecked \<^verbatim>\<open>FFT_MALLOC\<close>, whose NULL is
  then written through; in \<^verbatim>\<open>ifft\<close> they come from \<^verbatim>\<open>fft_ehmalloc\<close>. The plan functions
  of FFTW take the length as an \<^verbatim>\<open>int\<close> and return no plan unless it is positive: the
  lengths passed here are powers of two, which from \<open>2 ^ 31\<close> on convert to \<^verbatim>\<open>INT_MIN\<close> or 0,
  and executing the missing plan is undefined. \<open>num_threads\<close> is only a hint to the
  provider.
\<close>

definition fft :: "env \<Rightarrow> sample_d list \<Rightarrow> size_t \<Rightarrow> c_int \<Rightarrow> sample_f list comp" where
  "fft e samples_d num_samples_d nthreads =
     (let num_samples_f = num_samples_d div 2 + 1 in
      bind_comp (ehmalloc e (8 * num_samples_f)) (\<lambda>_.
        if \<not> fftwf_malloc_ok e (4 * num_samples_d) then Undef
        else if \<not> fftwf_malloc_ok e (8 * num_samples_f) then Undef
        else if num_samples_d = 0 then Undef
        else if 2 ^ 31 \<le> unat num_samples_d then Undef
        else if length samples_d < unat num_samples_d then Undef
        else Done (map (fftwf_r2c e (unat num_samples_d) (take (unat num_samples_d) samples_d))
                     [0..<unat num_samples_f])))"

definition ifft :: "env \<Rightarrow> sample_f list \<Rightarrow> size_t \<Rightarrow> c_int \<Rightarrow> sample_d list comp" where
  "ifft e samples_f num_samples_d nthreads =
     (let num_samples_f = num_samples_d div 2 + 1 in
      bind_comp (ehmalloc e (4 * num_samples_d)) (\<lambda>_.
      bind_comp (fft_ehmalloc e (4 * num_samples_d)) (\<lambda>_.
      bind_comp (fft_ehmalloc e (8 * num_samples_f)) (\<lambda>_.
        if num_samples_d = 0 then Undef
        else if 2 ^ 31 \<le> unat num_samples_d then Undef
        else if length samples_f < unat num_samples_f then Undef
        else Done (map (fftwf_c2r e (unat num_samples_d) (take (unat num_samples_f) samples_f))
                     [0..<unat num_samples_d])))))"

text \<open>
  \<^verbatim>\<open>resize\<close> (lines 186-193). The smaller count is kept in an \<^verbatim>\<open>int\<close> and widened again
  for the byte count of \<^verbatim>\<open>memcpy\<close>; a negative value widens to a count no buffer has.
\<close>

definition resize :: "env \<Rightarrow> sample_d list \<Rightarrow> size_t \<Rightarrow> size_t \<Rightarrow> sample_d list comp" where
  "resize e samples_in num_samples_in num_samples_out =
     bind_comp (ehmalloc e (4 * num_samples_out)) (\<lambda>_.
       let min_num_samples =
             (ucast (if num_samples_out < num_samples_in then num_samples_out
                     else num_samples_in) :: c_int)
       in if sint min_num_samples < 0 then Undef
          else if length samples_in < nat (sint min_num_samples) then Undef
          else Done (take (nat (sint min_num_samples)) samples_in
                     @ replicate (unat num_samples_out - nat (sint min_num_samples)) 0))"

text \<open>
  \<^verbatim>\<open>get_common_size\<close> (lines 284-292). Once \<open>res\<close> has been shifted to 0 the loop never
  leaves; not returning is the value \<open>None\<close>.
\<close>

partial_function (option) get_common_size_loop :: "size_t \<Rightarrow> size_t \<Rightarrow> size_t option" where
  "get_common_size_loop res minimal_size =
     (if res < minimal_size then get_common_size_loop (push_bit 1 res) minimal_size
      else Some res)"

definition get_common_size :: "size_t \<Rightarrow> size_t option" where
  "get_common_size minimal_size = get_common_size_loop 1 minimal_size"

text \<open>
  The filter loop of \<^verbatim>\<open>shenidam_get_audio_range\<close> (lines 435-440): it walks the callback
  array up to its first NULL entry and the context array beside it. Reading either
  array past its end is undefined.
\<close>

definition run_filter ::
  "'ctx frequential_filter_cb \<Rightarrow> sample_f list \<Rightarrow> size_t \<Rightarrow> 'ctx \<Rightarrow> sample_f list" where
  "run_filter cb spectrum bins d = map (cb spectrum bins d) [0..<length spectrum]"

fun apply_filters ::
  "'ctx frequential_filter_cb option list \<Rightarrow> 'ctx list \<Rightarrow> size_t \<Rightarrow> sample_f list \<Rightarrow> sample_f list
     \<Rightarrow> (sample_f list \<times> sample_f list) comp" where
  "apply_filters [] data_p bins track_f base_f = Undef"
| "apply_filters (None # cur) data_p bins track_f base_f = Done (track_f, base_f)"
| "apply_filters (Some cb # cur) [] bins track_f base_f = Undef"
| "apply_filters (Some cb # cur) (d # data_p) bins track_f base_f =
     apply_filters cur data_p bins (run_filter cb track_f bins d) (run_filter cb base_f bins d)"

text \<open>
  The peak search (lines 449-459). \<open>maxv\<close> is a \<^verbatim>\<open>float\<close> initialised with \<^verbatim>\<open>-DBL_MAX\<close>,
  which lies below every \<^verbatim>\<open>float\<close>: \<open>None\<close> stands for that initial value. The array has
  \<open>common_size\<close> elements, \<open>i\<close> counts them, and the index is stored into the \<^verbatim>\<open>int\<close>
  \<open>in\<close>.
\<close>

fun peak_loop :: "sample_d list \<Rightarrow> size_t \<Rightarrow> sample_d option \<Rightarrow> c_int \<Rightarrow> c_int" where
  "peak_loop [] i maxv in_idx = in_idx"
| "peak_loop (temp # convolved) i maxv in_idx =
     (if (case maxv of None \<Rightarrow> True | Some m \<Rightarrow> m < temp)
      then peak_loop convolved (i + 1) (Some temp) (ucast i)
      else peak_loop convolved (i + 1) maxv in_idx)"

definition peak_search :: "sample_d list \<Rightarrow> c_int" where
  "peak_search convolved = peak_loop convolved 0 None 0"

text \<open>
  The wraparound correction (lines 460-463). The comparison converts the \<^verbatim>\<open>int\<close> to
  \<^verbatim>\<open>size_t\<close>; the subtraction is done in \<^verbatim>\<open>size_t\<close> and stored back into the \<^verbatim>\<open>int\<close>.
\<close>

definition wraparound :: "c_int \<Rightarrow> size_t \<Rightarrow> size_t \<Rightarrow> c_int" where
  "wraparound in_idx common_size num_samples =
     (if common_size - num_samples div 2 < scast in_idx
      then ucast ((scast in_idx :: size_t) - common_size)
      else in_idx)"

text \<open>
  The rescaling (lines 464-465). Both expressions have the form
  \<^verbatim>\<open>v*impl->base_real_sample_rate/impl->base_sample_rate\<close> with \<open>v\<close> converted to
  \<^verbatim>\<open>double\<close>: a product, rounded, and then a quotient, rounded (\<open>rescaled\<close>). The
  conversion of the \<^verbatim>\<open>int\<close> \<open>in\<close> is exact, that of the \<^verbatim>\<open>size_t\<close> \<^verbatim>\<open>*length\<close> is rounded.
  \<^verbatim>\<open>round\<close> is then applied and its result converted to the integer type. A zero
  \<open>base_sample_rate\<close> makes the quotient infinite or NaN, whose conversion to an integer
  is undefined, as is that of an overflowed product or quotient.
\<close>

definition rescaled :: "'ctx shenidam_t_impl \<Rightarrow> real \<Rightarrow> real option" where
  "rescaled impl v =
     (case double_round (v * base_real_sample_rate impl) of
        None \<Rightarrow> None
      | Some p \<Rightarrow>
          if base_sample_rate impl = 0 then None
          else double_round (p / base_sample_rate impl))"

definition rescale ::
  "'ctx shenidam_t_impl \<Rightarrow> c_int \<Rightarrow> size_t \<Rightarrow> (c_int \<times> size_t) option" where
  "rescale impl in_idx len =
     (case rescaled impl (real_of_int (sint in_idx)) of
        None \<Rightarrow> None
      | Some t_in \<Rightarrow>
          (case int_of_double (c_round t_in) of
             None \<Rightarrow> None
           | Some in_point \<Rightarrow>
               (case double_round (real (unat len)) of
                  None \<Rightarrow> None
                | Some l \<Rightarrow>
                    (case rescaled impl l of
                       None \<Rightarrow> None
                     | Some t_len \<Rightarrow>
                         (case size_t_of_double (c_round t_len) of
                            None \<Rightarrow> None
                          | Some len' \<Rightarrow> Some (in_point, len'))))))"

section \<open>The session interface\<close>

text \<open>
  \<^verbatim>\<open>shenidam_create\<close> (lines 294-321) sets five of the seven fields; the other two keep
  whatever the allocated block contained (\<open>junk_rate\<close>, \<open>junk_count\<close>). Its two
  \<^verbatim>\<open>malloc\<close> calls are unchecked; this is the session they yield when both succeed.
\<close>

definition shenidam_create :: "real \<Rightarrow> c_int \<Rightarrow> real \<Rightarrow> size_t \<Rightarrow> 'ctx shenidam_t_impl" where
  "shenidam_create rate nthreads junk_rate junk_count =
     \<lparr> base_sample_rate = rate,
       base_real_sample_rate = junk_rate,
       base = None,
       base_num_samples = junk_count,
       frequential_filters = [None],
       frequential_filter_data = [],
       num_threads = (if sint nthreads \<le> 1 then 1 else nthreads) \<rparr>"

text \<open>
  \<^verbatim>\<open>shenidam_add_frequential_filter\<close> (lines 323-346). The counting loop is
  \<^verbatim>\<open>while((cur++)!= NULL) n++;\<close>: it tests the cursor, not the entry the cursor points to.
  \<open>cur\<close> is the cursor's offset into the array of \<open>len\<close> entries. A pointer into the array,
  or one past its end, is not NULL, so the test succeeds and the cursor moves on; moving
  it further than one past the end is undefined. The two \<^verbatim>\<open>realloc\<close> calls then ask for
  \<open>8 * n + 2\<close> bytes, and the stores go to the entries \<open>n\<close> and \<open>n + 1\<close> of 8 bytes each.
\<close>

function count_loop :: "nat \<Rightarrow> nat \<Rightarrow> c_int \<Rightarrow> c_int option" where
  "count_loop len cur n = (if len < cur then None else count_loop len (cur + 1) (n + 1))"
  by pat_completeness auto
termination
  by (relation "measure (\<lambda>(len, cur, n). Suc len - cur)") auto

declare count_loop.simps [simp del]

definition shenidam_add_frequential_filter ::
  "'ctx shenidam_t_impl \<Rightarrow> 'ctx frequential_filter_cb option \<Rightarrow> 'ctx
     \<Rightarrow> (status \<times> 'ctx shenidam_t_impl) option" where
  "shenidam_add_frequential_filter impl callback data =
     (case callback of
        None \<Rightarrow> Some (INVALID_ARGUMENT, impl)
      | Some cb \<Rightarrow>
          (case count_loop (length (frequential_filters impl)) 0 0 of
             None \<Rightarrow> None
           | Some n \<Rightarrow>
               if sint n < 0 then None
               else if 8 * nat (sint n) + 2 < 8 * (nat (sint n) + 2) then None
               else Some (SUCCESS,
                          impl\<lparr>frequential_filters :=
                                 take (nat (sint n)) (frequential_filters impl) @ [Some cb, None],
                               frequential_filter_data :=
                                 take (nat (sint n)) (frequential_filter_data impl) @ [data]\<rparr>)))"

text \<open>
  \<^verbatim>\<open>shenidam_set_base_audio\<close> (lines 347-374). The only test made before the conversion
  is that of \<open>base\<close>. A zero \<open>sample_rate\<close> makes the requested count infinite or NaN,
  whose conversion to \<^verbatim>\<open>size_t\<close> is undefined. The session is written only after the
  resampling; a \<^verbatim>\<open>longjmp\<close> arrives at \<^verbatim>\<open>return ALLOCATION_ERROR\<close>.
\<close>

definition set_base_audio_body ::
  "env \<Rightarrow> 'ctx shenidam_t_impl \<Rightarrow> sample_format \<Rightarrow> real list \<Rightarrow> size_t \<Rightarrow> real
     \<Rightarrow> (status \<times> 'ctx shenidam_t_impl) comp" where
  "set_base_audio_body e impl format samples num_samples sample_rate =
     bind_comp (convert_to_samples e format samples num_samples) (\<lambda>conv.
       case conv of
         None \<Rightarrow> Done (INVALID_ARGUMENT, impl)
       | Some base0 \<Rightarrow>
           if sample_rate = 0 then Undef
           else
             (case size_t_of_double
                     (c_round (real (unat num_samples) * base_sample_rate impl / sample_rate)) of
                None \<Rightarrow> Undef
              | Some num_samples_new \<Rightarrow>
                  bind_comp (resample_parallel e (normalize_samples base0) num_samples
                               (base_sample_rate impl / sample_rate) num_samples_new)
                    (\<lambda>(temp, num_samples_new').
                       Done (SUCCESS,
                             impl\<lparr>base_num_samples := num_samples_new',
                                  base := Some temp,
                                  base_real_sample_rate := sample_rate\<rparr>))))"

definition shenidam_set_base_audio ::
  "env \<Rightarrow> 'ctx shenidam_t_impl \<Rightarrow> sample_format \<Rightarrow> real list \<Rightarrow> size_t \<Rightarrow> real
     \<Rightarrow> (status \<times> 'ctx shenidam_t_impl) option" where
  "shenidam_set_base_audio e impl format samples num_samples sample_rate =
     (if base impl \<noteq> None then Some (ALREADY_SET_BASE_SIGNAL, impl)
      else
        case set_base_audio_body e impl format samples num_samples sample_rate of
          Done r \<Rightarrow> Some r
        | Longjmp \<Rightarrow> Some (ALLOCATION_ERROR, impl)
        | Undef \<Rightarrow> None)"

text \<open>
  \<^verbatim>\<open>shenidam_get_audio_range\<close> (lines 376-468), in three parts: the preparation of the
  query (lines 403-417), the correlation (lines 419-448) and the location of the peak
  (lines 449-465). The result holds the returned code, the session, and what has been
  stored through \<^verbatim>\<open>in_point\<close> and \<^verbatim>\<open>length\<close> (\<open>None\<close>: nothing). Line 418 stores the
  working length through \<^verbatim>\<open>length\<close> before the correlation allocates.
\<close>

definition prepare_query ::
  "env \<Rightarrow> 'ctx shenidam_t_impl \<Rightarrow> sample_format \<Rightarrow> real list \<Rightarrow> size_t \<Rightarrow> real
     \<Rightarrow> (sample_d list \<times> size_t) option comp" where
  "prepare_query e impl input_format samples num_samples sample_rate =
     bind_comp (convert_to_samples e input_format samples num_samples) (\<lambda>conv.
       case conv of
         None \<Rightarrow> Done None
       | Some track \<Rightarrow>
           let sample_rate_ratio = base_sample_rate impl / sample_rate in
           if sample_rate_ratio \<noteq> 1 then
             (case size_t_of_double \<lceil>real (unat num_samples) * sample_rate_ratio\<rceil> of
                None \<Rightarrow> Undef
              | Some num_samples_temp \<Rightarrow>
                  bind_comp (resample_parallel e (normalize_samples track) num_samples
                               sample_rate_ratio num_samples_temp)
                    (\<lambda>r. Done (Some r)))
           else Done (Some (normalize_samples track, num_samples)))"

definition correlate ::
  "env \<Rightarrow> 'ctx shenidam_t_impl \<Rightarrow> sample_d list \<Rightarrow> sample_d list \<Rightarrow> size_t
     \<Rightarrow> (sample_d list \<times> size_t) comp" where
  "correlate e impl base_buf track num_samples =
     (case get_common_size (num_samples + base_num_samples impl) of
        None \<Rightarrow> Undef
      | Some common_size \<Rightarrow>
          bind_comp (resize e track num_samples common_size) (\<lambda>track'.
          bind_comp (resize e base_buf (base_num_samples impl) common_size) (\<lambda>base'.
          bind_comp (fft e track' common_size (num_threads impl)) (\<lambda>track_f.
          bind_comp (fft e base' common_size (num_threads impl)) (\<lambda>base_f.
          bind_comp (apply_filters (frequential_filters impl) (frequential_filter_data impl)
                       (common_size div 2 + 1) track_f base_f) (\<lambda>(track_f', base_f').
          bind_comp (ifft e (map2 (\<lambda>t b. cnj t * b) track_f' base_f') common_size
                       (num_threads impl)) (\<lambda>convolved.
            Done (convolved, common_size))))))))"

definition locate ::
  "'ctx shenidam_t_impl \<Rightarrow> sample_d list \<Rightarrow> size_t \<Rightarrow> size_t \<Rightarrow> (c_int \<times> size_t) option" where
  "locate impl convolved common_size num_samples =
     rescale impl (wraparound (peak_search convolved) common_size num_samples) num_samples"

definition shenidam_get_audio_range ::
  "env \<Rightarrow> 'ctx shenidam_t_impl \<Rightarrow> sample_format \<Rightarrow> real list \<Rightarrow> size_t \<Rightarrow> real
     \<Rightarrow> (status \<times> 'ctx shenidam_t_impl \<times> c_int option \<times> size_t option) option" where
  "shenidam_get_audio_range e impl input_format samples num_samples sample_rate =
     (case base impl of
        None \<Rightarrow> Some (BASE_SIGNAL_NOT_SET, impl, None, None)
      | Some base_buf \<Rightarrow>
          if sample_rate \<le> 0 then Some (INVALID_ARGUMENT, impl, None, None)
          else if num_samples = 0 then Some (INVALID_ARGUMENT, impl, None, None)
          else
            (case prepare_query e impl input_format samples num_samples sample_rate of
               Undef \<Rightarrow> None
             | Longjmp \<Rightarrow> Some (ALLOCATION_ERROR, impl, None, None)
             | Done None \<Rightarrow> Some (INVALID_ARGUMENT, impl, None, None)
             | Done (Some (track, num_samples')) \<Rightarrow>
                 (case correlate e impl base_buf track num_samples' of
                    Undef \<Rightarrow> None
                  | Longjmp \<Rightarrow> Some (ALLOCATION_ERROR, impl, None, Some num_samples')
                  | Done (convolved, common_size) \<Rightarrow>
                      (case locate impl convolved common_size num_samples' of
                         None \<Rightarrow> None
                       | Some (in_point, len) \<Rightarrow>
                           Some (SUCCESS, impl, Some in_point, Some len)))))"

section \<open>Concrete inputs\<close>

text \<open>
  Environments and sessions at which the theorems below are evaluated. In \<open>demo_env\<close>
  every allocation succeeds, the converter hands back its input cut to the capacity,
  the forward transform gives 1 in every bin and the inverse transform puts the real
  part of bin 0 at the last index and 0 elsewhere; \<open>omp_env\<close> runs two OpenMP threads;
  in \<open>no_memory_env\<close> \<^verbatim>\<open>malloc\<close> returns NULL. \<open>demo_session w r\<close> is a session of working
  rate \<open>w\<close> that holds the one-sample base \<open>[0]\<close>, committed at rate \<open>r\<close>;
  \<open>muted_session\<close> has in addition one filter, which zeroes every bin.
\<close>

definition demo_env :: env where
  "demo_env =
     \<lparr> malloc_ok = (\<lambda>_. True),
       fftwf_malloc_ok = (\<lambda>_. True),
       src_simple = (\<lambda>xs ratio cap. take (unat cap) xs),
       fftwf_r2c = (\<lambda>n xs k. 1),
       fftwf_c2r = (\<lambda>n spec i. if Suc i = n then Re (spec ! 0) else 0),
       SHENIDAM_PARALLEL_OMP = False,
       omp_get_num_threads = 1,
       uninit_size_t = (\<lambda>_. 0),
       pointer_bits = (\<lambda>_. (0, 0)) \<rparr>"

definition omp_env :: env where
  "omp_env =
     demo_env\<lparr> SHENIDAM_PARALLEL_OMP := True,
               omp_get_num_threads := 2,
               uninit_size_t := (\<lambda>_. 2),
               pointer_bits := (\<lambda>i. if i = 0 then (5, 6) else (7, 8)) \<rparr>"

definition no_memory_env :: env where
  "no_memory_env = demo_env\<lparr> malloc_ok := (\<lambda>_. False) \<rparr>"

definition demo_session :: "real \<Rightarrow> real \<Rightarrow> unit shenidam_t_impl" where
  "demo_session w r =
     \<lparr> base_sample_rate = w,
       base_real_sample_rate = r,
       base = Some [0],
       base_num_samples = 1,
       frequential_filters = [None],
       frequential_filter_data = [],
       num_threads = 1 \<rparr>"

definition muted_session :: "unit shenidam_t_impl" where
  "muted_session =
     (demo_session 1 1)
       \<lparr> frequential_filters := [Some (\<lambda>spectrum bins d i. 0), None],
         frequential_filter_data := [()] \<rparr>"

text \<open>\<open>first_max xs p\<close>: \<open>p\<close> is the first index at which \<open>xs\<close> takes its greatest value.\<close>

definition first_max :: "real list \<Rightarrow> nat \<Rightarrow> bool" where
  "first_max xs p \<longleftrightarrow>
     p < length xs \<and> (\<forall>j<length xs. xs ! j \<le> xs ! p) \<and> (\<forall>j<p. xs ! j < xs ! p)"

section \<open>Machine arithmetic\<close>

lemma unat_pow2_64: "j < 64 \<Longrightarrow> unat ((2::size_t) ^ j) = 2 ^ j"
proof -
  assume j: "j < 64"
  have "(2::size_t) ^ j = word_of_nat (2 ^ j)" by simp
  then have "unat ((2::size_t) ^ j) = (2 ^ j) mod 2 ^ 64"
    by (simp only: unat_of_nat) simp
  moreover have "(2::nat) ^ j < 2 ^ 64"
    using j by (intro power_strict_increasing) simp_all
  ultimately show ?thesis by simp
qed

lemma ucast_of_nat_64_32: "(ucast (word_of_nat k :: size_t) :: c_int) = word_of_nat k"
  by (simp add: unsigned_of_nat word_of_nat_eq_iff min_def take_bit_take_bit)

lemma sint_of_nat_32: "p < 2 ^ 31 \<Longrightarrow> sint (word_of_nat p :: c_int) = int p"
  by (simp add: signed_of_nat signed_take_bit_int_eq_self)

lemma scast_of_nat_32_64:
  "p < 2 ^ 31 \<Longrightarrow> (scast (word_of_nat p :: c_int) :: size_t) = word_of_nat p"
  by (simp add: signed_of_nat signed_take_bit_int_eq_self)

lemma ucast_minus_1: "(ucast (- 1 :: size_t) :: c_int) = - 1"
proof -
  have "(ucast (word_of_int (- 1) :: size_t) :: c_int) = word_of_int (- 1)"
    by (rule ucast_down_wi) (simp add: is_down)
  then show ?thesis by simp
qed

lemma sint_le_uint: "sint (w :: c_int) \<le> uint w"
proof -
  have "sint w = take_bit 32 (uint w) - 2 ^ 32 * of_bool (bit (uint w) 31)"
    by (simp add: sint_uint signed_take_bit_eq_take_bit_minus)
  also have "\<dots> \<le> take_bit 32 (uint w)" by simp
  also have "\<dots> = uint w"
    using uint_lt2p [of w] by (simp add: take_bit_int_eq_self_iff)
  finally show ?thesis .
qed

lemma sint_ucast_le: "nat (sint (ucast (x :: size_t) :: c_int)) \<le> unat x"
proof -
  have "sint (ucast x :: c_int) \<le> uint (ucast x :: c_int)"
    by (rule sint_le_uint)
  also have "\<dots> = take_bit 32 (uint x)"
    by (simp add: unsigned_ucast_eq)
  also have "\<dots> \<le> uint x"
    by (simp add: take_bit_int_less_eq_self_iff)
  finally have "nat (sint (ucast x :: c_int)) \<le> nat (uint x)"
    by (rule nat_mono)
  then show ?thesis
    unfolding unat_eq_nat_uint .
qed

lemma int_of_double_Some: "int_of_double v = Some w \<Longrightarrow> sint w = v"
  by (auto simp: int_of_double_def sint_sbintrunc' signed_take_bit_int_eq_self split: if_splits)

lemma size_t_of_double_Some: "size_t_of_double v = Some w \<Longrightarrow> int (unat w) = v"
  by (auto simp: size_t_of_double_def uint_word_of_int split: if_splits)

lemma c_round_error: "\<bar>real_of_int (c_round x) - x\<bar> \<le> 1 / 2"
proof (cases "0 \<le> x")
  case True
  then have c: "c_round x = \<lfloor>x + 1 / 2\<rfloor>" by (simp add: c_round_def)
  have "real_of_int \<lfloor>x + 1 / 2\<rfloor> \<le> x + 1 / 2" "x + 1 / 2 < real_of_int \<lfloor>x + 1 / 2\<rfloor> + 1"
    by linarith+
  then show ?thesis unfolding c by linarith
next
  case False
  then have c: "c_round x = \<lceil>x - 1 / 2\<rceil>" by (simp add: c_round_def)
  have "x - 1 / 2 \<le> real_of_int \<lceil>x - 1 / 2\<rceil>" "real_of_int \<lceil>x - 1 / 2\<rceil> < x - 1 / 2 + 1"
    by linarith+
  then show ?thesis unfolding c by linarith
qed

lemma round_to_even_error: "\<bar>real_of_int (round_to_even x) - x\<bar> \<le> 1 / 2"
  unfolding round_to_even_def Let_def by (auto; linarith)

lemma round_to_even_of_int: "round_to_even (of_int k) = k"
  unfolding round_to_even_def Let_def by simp

lemma powr_2_of_int: "(2::real) powr real_of_int k = 2 powi k"
  by (rule powr_real_of_int') simp_all

lemma binade_nonzero: "2 powi e \<le> \<bar>x :: real\<bar> \<Longrightarrow> x \<noteq> 0"
proof
  assume "2 powi e \<le> \<bar>x\<bar>" "x = 0"
  moreover have "(0::real) < 2 powi e" by simp
  ultimately show False by simp
qed

lemma floor_log2_eq:
  assumes "2 powi e \<le> \<bar>x\<bar>" "\<bar>x\<bar> < 2 powi (e + 1)"
  shows "\<lfloor>log 2 \<bar>x :: real\<bar>\<rfloor> = e"
proof -
  have pos: "0 < \<bar>x\<bar>" using binade_nonzero [OF assms(1)] by simp
  have one: "(1::real) < 2" by simp
  have "2 powr real_of_int e \<le> \<bar>x\<bar> \<and> \<bar>x\<bar> < 2 powr real_of_int (e + 1)"
    unfolding powr_2_of_int using assms by blast
  then show ?thesis
    using floor_log_eq_powr_iff [OF pos one, of e] by blast
qed

lemma floor_log2_bounds:
  assumes "x \<noteq> 0"
  shows "2 powi \<lfloor>log 2 \<bar>x :: real\<bar>\<rfloor> \<le> \<bar>x\<bar>" "\<bar>x\<bar> < 2 powi (\<lfloor>log 2 \<bar>x\<bar>\<rfloor> + 1)"
proof -
  have pos: "0 < \<bar>x\<bar>" using assms by simp
  have one: "(1::real) < 2" by simp
  have "(2::real) powr real_of_int \<lfloor>log 2 \<bar>x\<bar>\<rfloor> \<le> \<bar>x\<bar>
      \<and> \<bar>x\<bar> < 2 powr real_of_int (\<lfloor>log 2 \<bar>x\<bar>\<rfloor> + 1)"
    using floor_log_eq_powr_iff [OF pos one, of "\<lfloor>log 2 \<bar>x\<bar>\<rfloor>"] by blast
  then show "2 powi \<lfloor>log 2 \<bar>x :: real\<bar>\<rfloor> \<le> \<bar>x\<bar>" "\<bar>x\<bar> < 2 powi (\<lfloor>log 2 \<bar>x\<bar>\<rfloor> + 1)"
    unfolding powr_2_of_int by blast+
qed

lemma double_round_binade:
  assumes "2 powi e \<le> \<bar>x\<bar>" "\<bar>x\<bar> < 2 powi (e + 1)" "- 1022 \<le> e"
  shows "double_round x =
           (if 2 ^ 1024 \<le> \<bar>real_of_int (round_to_even (x / 2 powi (e - 52))) * 2 powi (e - 52)\<bar>
            then None
            else Some (of_int (round_to_even (x / 2 powi (e - 52))) * 2 powi (e - 52)))"
proof -
  have nz: "x \<noteq> 0" using assms(1) by (rule binade_nonzero)
  have m: "max (- 1022) \<lfloor>log 2 \<bar>x\<bar>\<rfloor> = e"
    using floor_log2_eq [OF assms(1,2)] assms(3) by simp
  show ?thesis
    unfolding double_round_def Let_def m using nz by (simp only: if_False)
qed

lemma double_round_exact:
  assumes "2 powi e \<le> \<bar>x\<bar>" "\<bar>x\<bar> < 2 powi (e + 1)" "- 1022 \<le> e" "e \<le> 1023"
    and "x / 2 powi (e - 52) = of_int k"
  shows "double_round x = Some x"
proof -
  have y: "of_int (round_to_even (x / 2 powi (e - 52))) * 2 powi (e - 52) = x"
    unfolding assms(5) round_to_even_of_int
    using assms(5) by (simp add: field_simps)
  have "(2::real) powi (e + 1) \<le> 2 powi 1024"
    using assms(4) by (intro power_int_increasing) simp_all
  also have "(2::real) powi 1024 = 2 ^ 1024"
    by (simp only: power_int_numeral)
  finally have "\<not> 2 ^ 1024 \<le> \<bar>x\<bar>" using assms(2) by linarith
  then show ?thesis
    unfolding double_round_binade [OF assms(1-3)] y by (simp only: if_False)
qed

lemma double_round_normal:
  assumes n: "2 powi (- 1022) \<le> \<bar>x\<bar>" and r: "double_round x = Some y"
  shows "\<bar>y - x\<bar> \<le> \<bar>x\<bar> / 2 ^ 53"
proof -
  have nz: "x \<noteq> 0" using n by (rule binade_nonzero)
  define e where "e = \<lfloor>log 2 \<bar>x\<bar>\<rfloor>"
  note b = floor_log2_bounds [OF nz, folded e_def]
  have e: "- 1022 \<le> e"
  proof (rule ccontr)
    assume "\<not> - 1022 \<le> e"
    then have "e + 1 \<le> - 1022" by simp
    then have "(2::real) powi (e + 1) \<le> 2 powi (- 1022)"
      by (intro power_int_increasing) simp_all
    with n b(2) show False by linarith
  qed
  define u where "u = (2::real) powi (e - 52)"
  have upos: "0 < u" by (simp add: u_def)
  from r have y: "y = of_int (round_to_even (x / u)) * u"
    unfolding double_round_binade [OF b e] u_def by (metis option.inject option.distinct(1))
  have "y - x = (of_int (round_to_even (x / u)) - x / u) * u"
    using upos by (simp add: y field_simps)
  then have "\<bar>y - x\<bar> = \<bar>of_int (round_to_even (x / u)) - x / u\<bar> * u"
    using upos by (simp add: abs_mult)
  also have "\<dots> \<le> (1 / 2) * u"
    using round_to_even_error [of "x / u"] upos by (intro mult_right_mono) simp_all
  also have "(1 / 2) * u = 2 powi e / 2 ^ 53"
    by (simp add: u_def power_int_diff)
  also have "\<dots> \<le> \<bar>x\<bar> / 2 ^ 53"
    using b(1) by (simp add: divide_right_mono)
  finally show ?thesis .
qed

lemma cube_bounds:
  "1 - 1 / 2 ^ 51 \<le> (1 - 1 / 2 ^ 53) * (1 - 1 / 2 ^ 53) * (1 - 1 / 2 ^ 53 :: real)"
  "(1 + 1 / 2 ^ 53) * (1 + 1 / 2 ^ 53) * (1 + 1 / 2 ^ 53 :: real) \<le> 1 + 1 / 2 ^ 51"
  by simp_all

lemma min_normal: "(2::real) powi (- 1022) = (1 / 4) * (1 / 2 ^ 1020)"
proof -
  have "(2::real) powi (- 1022) = 1 / 2 ^ 1022"
    by (simp only: power_int_minus_divide power_int_numeral)
  also have "(2::real) ^ 1022 = 2 ^ (2 + 1020)"
    by (simp del: power_numeral)
  also have "\<dots> = 2 ^ 2 * 2 ^ 1020"
    by (rule power_add)
  also have "1 / (2 ^ 2 * (2::real) ^ 1020) = (1 / 4) * (1 / 2 ^ 1020)"
    by (simp del: power_numeral add: power2_eq_square)
  finally show ?thesis .
qed

lemma double_round_within:
  assumes "2 powi (- 1022) \<le> lo" "lo \<le> x" "x \<le> hi" "double_round x = Some y"
  shows "lo * (1 - 1 / 2 ^ 53) \<le> y" "y \<le> hi * (1 + 1 / 2 ^ 53)"
proof -
  have "(0::real) < 2 powi (- 1022)" by simp
  with assms have pos: "0 < x" "2 powi (- 1022) \<le> \<bar>x\<bar>" by linarith+
  define u where "u = 1 / (2::real) ^ 53"
  have u: "0 \<le> 1 - u" "0 \<le> 1 + u" by (simp_all add: u_def)
  from double_round_normal [OF pos(2) assms(4)] pos(1) have "\<bar>y - x\<bar> \<le> x * u"
    by (simp add: u_def)
  then have y: "x * (1 - u) \<le> y" "y \<le> x * (1 + u)"
    by (simp_all add: algebra_simps abs_le_iff)
  have "lo * (1 - u) \<le> x * (1 - u)" using assms(2) u(1) by (rule mult_right_mono)
  with y(1) show "lo * (1 - 1 / 2 ^ 53) \<le> y" unfolding u_def by linarith
  have "x * (1 + u) \<le> hi * (1 + u)" using assms(3) u(2) by (rule mult_right_mono)
  with y(2) show "y \<le> hi * (1 + 1 / 2 ^ 53)" unfolding u_def by linarith
qed

lemma rescaled_length_error:
  fixes ro rw q :: real
  assumes q: "1 \<le> q" and ro: "1 / 2 ^ 1020 \<le> ro" and rw: "0 < rw" "rw / 2 ^ 1020 \<le> ro"
    and l: "double_round q = Some l"
    and p: "double_round (l * ro) = Some p"
    and t: "double_round (p / rw) = Some t"
  shows "\<bar>t * rw / ro - q\<bar> \<le> q / 2 ^ 51"
proof -
  define a where "a = 1 - 1 / (2::real) ^ 53"
  define b where "b = 1 + 1 / (2::real) ^ 53"
  define c where "c = 1 / (2::real) ^ 1020"
  define m where "m = (2::real) powi (- 1022)"
  have m: "m = (1 / 4) * c" unfolding m_def c_def by (rule min_normal)
  have cpos: "0 < c" by (simp add: c_def)
  have a: "1 / 2 \<le> a" "a \<le> 1" and b: "1 \<le> b" by (simp_all add: a_def b_def)
  have a3: "1 - 1 / 2 ^ 51 \<le> a * a * a" and b3: "b * b * b \<le> 1 + 1 / 2 ^ 51"
    unfolding a_def b_def by (rule cube_bounds)+
  have ro': "c \<le> ro" and rw': "rw * c \<le> ro" using ro rw by (simp_all add: c_def)
  have ropos: "0 < ro" using ro' cpos by linarith
  have r: "c \<le> ro / rw" using rw' rw(1) by (simp add: pos_le_divide_eq mult.commute)
  have rpos: "0 < ro / rw" using ropos rw(1) by simp
  have "m \<le> q" using q cpos m by (simp add: c_def) 
  from double_round_within [OF this [unfolded m_def] order_refl order_refl l]
  have l1: "q * a \<le> l" "l \<le> q * b" by (simp_all add: a_def b_def)
  have qa: "1 / 2 \<le> q * a" using mult_mono [of 1 q "1 / 2" a] q a by simp
  have "(1 / 2) * c \<le> (q * a) * ro" using qa ro' cpos by (intro mult_mono) simp_all
  then have m1: "m \<le> q * a * ro" using m cpos by linarith
  have lo1: "q * a * ro \<le> l * ro" using l1(1) ropos by (simp add: mult_right_mono)
  have hi1: "l * ro \<le> q * b * ro" using l1(2) ropos by (simp add: mult_right_mono)
  from double_round_within [OF m1 [unfolded m_def] lo1 hi1 p]
  have p1: "q * a * ro * a \<le> p" "p \<le> q * b * ro * b" by (simp_all add: a_def b_def)
  have qaa: "1 / 4 \<le> q * a * a" using mult_mono [of "1 / 2" "q * a" "1 / 2" a] qa a by simp
  have "(1 / 4) * c \<le> (q * a * a) * (ro / rw)" using qaa r cpos by (intro mult_mono) simp_all
  moreover have "q * a * ro * a / rw = (q * a * a) * (ro / rw)" by simp
  ultimately have m2: "m \<le> q * a * ro * a / rw" using m by linarith
  have lo2: "q * a * ro * a / rw \<le> p / rw" using p1(1) rw(1) by (simp add: divide_right_mono)
  have hi2: "p / rw \<le> q * b * ro * b / rw" using p1(2) rw(1) by (simp add: divide_right_mono)
  from double_round_within [OF m2 [unfolded m_def] lo2 hi2 t]
  have t1: "q * a * ro * a / rw * a \<le> t" "t \<le> q * b * ro * b / rw * b"
    by (simp_all add: a_def b_def)
  have wr: "0 \<le> rw / ro" using ropos rw(1) by simp
  have "q * a * ro * a / rw * a * (rw / ro) \<le> t * (rw / ro)"
    using t1(1) wr by (rule mult_right_mono)
  then have lo: "q * (a * a * a) \<le> t * rw / ro"
    using ropos rw(1) by (simp add: field_simps)
  have "t * (rw / ro) \<le> q * b * ro * b / rw * b * (rw / ro)"
    using t1(2) wr by (rule mult_right_mono)
  then have hi: "t * rw / ro \<le> q * (b * b * b)"
    using ropos rw(1) by (simp add: field_simps)
  have q0: "0 \<le> q" using q by simp
  define d where "d = q / 2 ^ 51"
  have d: "q * (1 - 1 / 2 ^ 51) = q - d" "q * (1 + 1 / 2 ^ 51) = q + d"
    by (simp_all add: d_def algebra_simps)
  have "q * (1 - 1 / 2 ^ 51) \<le> q * (a * a * a)" using a3 q0 by (rule mult_left_mono)
  then have "q - d \<le> q * (a * a * a)" unfolding d(1) .
  then have L: "q - d \<le> t * rw / ro" using lo by (rule order_trans)
  have "q * (b * b * b) \<le> q * (1 + 1 / 2 ^ 51)" using b3 q0 by (rule mult_left_mono)
  then have "q * (b * b * b) \<le> q + d" unfolding d(2) .
  with hi have U: "t * rw / ro \<le> q + d" by (rule order_trans)
  have "\<bar>t * rw / ro - q\<bar> \<le> d" using L U by linarith
  then show ?thesis unfolding d_def .
qed

lemma double_round_of_nat:
  assumes "n < 2 ^ 53"
  shows "double_round (real n) = Some (real n)"
proof (cases "n = 0")
  case True
  then show ?thesis by (simp add: double_round_def)
next
  case False
  define e where "e = \<lfloor>log 2 \<bar>real n\<bar>\<rfloor>"
  have nz: "real n \<noteq> 0" using False by simp
  note bd = floor_log2_bounds [OF nz, folded e_def]
  have one: "1 \<le> \<bar>real n\<bar>" using False by simp
  have e0: "0 \<le> e"
  proof (rule ccontr)
    assume "\<not> 0 \<le> e"
    then have "e + 1 \<le> 0" by simp
    then have "(2::real) powi (e + 1) \<le> 2 powi 0" by (intro power_int_increasing) simp_all
    with bd(2) one show False by simp
  qed
  have "real n < real (2 ^ 53)" using assms by (simp only: of_nat_less_iff)
  also have "real (2 ^ 53) = 2 powi 53"
    by (simp only: of_nat_power of_nat_numeral power_int_numeral)
  finally have lt: "\<bar>real n\<bar> < 2 powi 53" by simp
  have e52: "e \<le> 52"
  proof (rule ccontr)
    assume "\<not> e \<le> 52"
    then have "53 \<le> e" by simp
    then have "(2::real) powi 53 \<le> 2 powi e" by (intro power_int_increasing) simp_all
    with bd(1) lt show False by linarith
  qed
  have "(2::real) powi (e - 52) = 1 / 2 powi (52 - e)"
    by (simp add: power_int_diff)
  also have "(2::real) powi (52 - e) = 2 ^ nat (52 - e)"
    using e52 by (simp add: power_int_def)
  finally have "real n / 2 powi (e - 52) = of_int (int n * 2 ^ nat (52 - e))"
    by simp
  then show ?thesis
    using bd e0 e52
    by (intro double_round_exact [where e = e and k = "int n * 2 ^ nat (52 - e)"]) simp_all
qed

lemma rescaled_Some:
  assumes "rescaled impl v = Some t"
  shows "\<exists>p. double_round (v * base_real_sample_rate impl) = Some p
           \<and> double_round (p / base_sample_rate impl) = Some t"
  using assms by (auto simp: rescaled_def split: option.splits if_splits)

lemma converted_back_error:
  fixes ro rw :: real
  assumes ro: "1 / 2 ^ 1020 \<le> ro" and rw: "0 < rw" "rw / 2 ^ 1020 \<le> ro"
    and l: "double_round (real n) = Some l"
    and p: "double_round (l * ro) = Some p"
    and t: "double_round (p / rw) = Some t"
    and k: "int k = c_round t"
  shows "\<bar>real k * rw / ro - real n\<bar> \<le> rw / (2 * ro) + real n / 2 ^ 51"
proof -
  have "(0::real) < 1 / 2 ^ 1020" by simp
  with ro have ropos: "0 < ro" by linarith
  have wr: "0 \<le> rw / ro" using ropos rw(1) by simp
  have kt: "\<bar>real k - t\<bar> \<le> 1 / 2"
    using c_round_error [of t] k by (metis of_int_of_nat_eq)
  have "\<bar>(real k - t) * (rw / ro)\<bar> = \<bar>real k - t\<bar> * (rw / ro)"
    by (simp only: abs_mult abs_of_nonneg [OF wr])
  also have "\<dots> \<le> (1 / 2) * (rw / ro)"
    using kt wr by (rule mult_right_mono)
  finally have first: "\<bar>(real k - t) * (rw / ro)\<bar> \<le> rw / (2 * ro)" by simp
  have second: "\<bar>t * rw / ro - real n\<bar> \<le> real n / 2 ^ 51"
  proof (cases "n = 0")
    case True
    from l have "l = 0" by (simp add: True double_round_def)
    with p have "p = 0" by (simp add: double_round_def)
    with t have "t = 0" by (simp add: double_round_def)
    then show ?thesis by (simp add: True)
  next
    case False
    then have "1 \<le> real n" by simp
    then show ?thesis using ro rw l p t by (rule rescaled_length_error)
  qed
  have "real k * rw / ro - real n = (real k - t) * (rw / ro) + (t * rw / ro - real n)"
    by (simp add: algebra_simps)
  then have "\<bar>real k * rw / ro - real n\<bar>
               \<le> \<bar>(real k - t) * (rw / ro)\<bar> + \<bar>t * rw / ro - real n\<bar>"
    by (simp only: abs_triangle_ineq)
  also have "\<dots> \<le> rw / (2 * ro) + real n / 2 ^ 51"
    using first second by (rule add_mono)
  finally show ?thesis .
qed

section \<open>The common size\<close>

lemma get_common_size_loop_less:
  "res < m \<Longrightarrow> get_common_size_loop res m = get_common_size_loop (push_bit 1 res) m"
  by (subst get_common_size_loop.simps) simp

lemma get_common_size_loop_stop:
  "\<not> res < m \<Longrightarrow> get_common_size_loop res m = Some res"
  by (subst get_common_size_loop.simps) simp

lemma get_common_size_loop_pow2:
  "j \<le> k \<Longrightarrow> k \<le> 63 \<Longrightarrow> (\<forall>i. j \<le> i \<and> i < k \<longrightarrow> 2 ^ i < unat n) \<Longrightarrow> unat n \<le> 2 ^ k
     \<Longrightarrow> get_common_size_loop (2 ^ j) n = Some (2 ^ k)"
proof (induction "k - j" arbitrary: j)
  case 0
  then have jk: "j = k" by simp
  have "\<not> ((2::size_t) ^ k < n)"
    using 0 by (simp add: word_less_nat_alt unat_pow2_64)
  then show ?case
    by (simp add: jk get_common_size_loop_stop)
next
  case (Suc d)
  then have lt: "j < k" by simp
  have "(2::size_t) ^ j < n"
    using Suc lt by (simp add: word_less_nat_alt unat_pow2_64)
  moreover have "get_common_size_loop (2 ^ Suc j) n = Some (2 ^ k)"
    using Suc by (intro Suc.hyps(1)) auto
  ultimately show ?case
    by (simp add: get_common_size_loop_less push_bit_eq_mult mult.commute)
qed

lemma get_common_size_least:
  assumes "unat n \<le> 2 ^ 63"
  shows "\<exists>k\<le>63. get_common_size n = Some (2 ^ k) \<and> unat n \<le> 2 ^ k
            \<and> (\<forall>j. unat n \<le> 2 ^ j \<longrightarrow> k \<le> j)"
proof -
  define k where "k = (LEAST k. unat n \<le> 2 ^ k)"
  have ex: "unat n \<le> 2 ^ k" unfolding k_def using assms by (rule LeastI)
  have least: "\<And>j. unat n \<le> 2 ^ j \<Longrightarrow> k \<le> j" unfolding k_def by (rule Least_le)
  have k63: "k \<le> 63" using least [OF assms] .
  have "\<forall>i. 0 \<le> i \<and> i < k \<longrightarrow> 2 ^ i < unat n"
    using least by (meson not_le)
  then have "get_common_size_loop (2 ^ 0) n = Some (2 ^ k)"
    using ex k63 by (intro get_common_size_loop_pow2) auto
  then show ?thesis
    using ex least k63 by (auto simp: get_common_size_def)
qed

lemma get_common_size_loop_result:
  assumes "get_common_size_loop res m = Some y"
  shows "m \<le> y \<and> (res = 0 \<longrightarrow> m = 0)"
  by (rule get_common_size_loop.raw_induct
        [where P = "\<lambda>res m y. m \<le> y \<and> (res = 0 \<longrightarrow> m = 0)", OF _ assms])
     (auto split: if_splits simp: not_less)

lemma get_common_size_bound: "get_common_size m = Some cs \<Longrightarrow> m \<le> cs"
  using get_common_size_loop_result [of 1 m cs] by (simp add: get_common_size_def)

lemma get_common_size_loop_zero: "m \<noteq> 0 \<Longrightarrow> get_common_size_loop 0 m = None"
  using get_common_size_loop_result [of 0 m] by (cases "get_common_size_loop 0 m") auto

lemma get_common_size_loop_diverges:
  "j \<le> 64 \<Longrightarrow> 2 ^ 63 < unat m \<Longrightarrow> get_common_size_loop (2 ^ j) m = None"
proof (induction "64 - j" arbitrary: j)
  case 0
  then have j: "j = 64" by simp
  have z: "(2::size_t) ^ 64 = 0"
    by (simp only: exp_eq_zero_iff) simp
  have "m \<noteq> 0" using 0 by (auto simp: unat_eq_0)
  then have "get_common_size_loop 0 m = None" by (rule get_common_size_loop_zero)
  then show ?case unfolding j z .
next
  case (Suc d)
  then have j: "j < 64" by simp
  then have "(2::nat) ^ j \<le> 2 ^ 63" by (intro power_increasing) simp_all
  then have "(2::size_t) ^ j < m"
    using Suc.prems j by (simp add: word_less_nat_alt unat_pow2_64)
  moreover have "get_common_size_loop (2 ^ Suc j) m = None"
    using Suc by (intro Suc.hyps(1)) auto
  ultimately show ?case
    by (simp add: get_common_size_loop_less push_bit_eq_mult mult.commute)
qed

lemma get_common_size_diverges: "2 ^ 63 < unat m \<Longrightarrow> get_common_size m = None"
  using get_common_size_loop_diverges [of 0 m] by (simp add: get_common_size_def)

section \<open>The peak search and the wraparound correction\<close>

lemma first_max_Cons_0: "\<forall>x\<in>set xs. x \<le> t \<Longrightarrow> first_max (t # xs) 0"
  by (auto simp: first_max_def nth_Cons split: nat.splits)

lemma first_max_Cons_Suc: "first_max xs p \<Longrightarrow> t < xs ! p \<Longrightarrow> first_max (t # xs) (Suc p)"
  by (auto simp: first_max_def nth_Cons less_Suc_eq_0_disj split: nat.splits)

lemma first_max_constant:
  assumes "first_max xs p" "\<forall>j<length xs. xs ! j = xs ! 0"
  shows "p = 0"
proof (rule ccontr)
  assume "p \<noteq> 0"
  then have "0 < p" by simp
  with assms(1) have "xs ! 0 < xs ! p" "p < length xs" by (auto simp: first_max_def)
  with assms(2) show False by auto
qed

lemma peak_loop_Cons_of_nat:
  "peak_loop (t # xs) (word_of_nat k) maxv in_idx =
     (if (case maxv of None \<Rightarrow> True | Some m \<Rightarrow> m < t)
      then peak_loop xs (word_of_nat (Suc k)) (Some t) (word_of_nat k)
      else peak_loop xs (word_of_nat (Suc k)) maxv in_idx)"
  by (simp add: ucast_of_nat_64_32 add.commute)

lemma peak_loop_first_max:
  "\<exists>x\<in>set xs. (case maxv of None \<Rightarrow> True | Some m \<Rightarrow> m < x)
     \<Longrightarrow> \<exists>p. first_max xs p \<and> peak_loop xs (word_of_nat k) maxv in_idx = word_of_nat (k + p)
             \<and> (case maxv of None \<Rightarrow> True | Some m \<Rightarrow> m < xs ! p)"
  and peak_loop_unchanged:
  "\<not> (\<exists>x\<in>set xs. (case maxv of None \<Rightarrow> True | Some m \<Rightarrow> m < x))
     \<Longrightarrow> peak_loop xs (word_of_nat k) maxv in_idx = in_idx"
proof (induction xs arbitrary: k maxv in_idx)
  case Nil
  { case 1 then show ?case by simp }
  { case 2 then show ?case by simp }
next
  case (Cons t xs)
  { case 1
    show ?case
    proof (cases "case maxv of None \<Rightarrow> True | Some m \<Rightarrow> m < t")
      case True
      show ?thesis
      proof (cases "\<exists>x\<in>set xs. t < x")
        case ex: True
        then obtain p where p: "first_max xs p"
          "peak_loop xs (word_of_nat (Suc k)) (Some t) (word_of_nat k) = word_of_nat (Suc k + p)"
          "t < xs ! p"
          using Cons.IH(1) [of "Some t" "Suc k" "word_of_nat k"] by auto
        have "first_max (t # xs) (Suc p)" using p by (simp add: first_max_Cons_Suc)
        moreover have "case maxv of None \<Rightarrow> True | Some m \<Rightarrow> m < (t # xs) ! Suc p"
          using True p(3) by (auto split: option.splits)
        moreover have "peak_loop (t # xs) (word_of_nat k) maxv in_idx = word_of_nat (k + Suc p)"
          unfolding peak_loop_Cons_of_nat using True p(2) by (simp del: of_nat_Suc of_nat_add)
        ultimately show ?thesis by blast
      next
        case nex: False
        then have "peak_loop xs (word_of_nat (Suc k)) (Some t) (word_of_nat k) = word_of_nat k"
          using Cons.IH(2) [of "Some t" "Suc k" "word_of_nat k"] by auto
        then have "peak_loop (t # xs) (word_of_nat k) maxv in_idx = word_of_nat (k + 0)"
          unfolding peak_loop_Cons_of_nat using True by (simp del: of_nat_Suc of_nat_add)
        moreover have "first_max (t # xs) 0"
          using nex by (intro first_max_Cons_0) (auto simp: not_less)
        moreover have "case maxv of None \<Rightarrow> True | Some m \<Rightarrow> m < (t # xs) ! 0"
          using True by (auto split: option.splits)
        ultimately show ?thesis by blast
      qed
    next
      case False
      then obtain m where m: "maxv = Some m" "\<not> m < t" by (auto split: option.splits)
      with 1 have "\<exists>x\<in>set xs. m < x" by auto
      then obtain p where p: "first_max xs p"
          "peak_loop xs (word_of_nat (Suc k)) (Some m) in_idx = word_of_nat (Suc k + p)"
          "m < xs ! p"
        using Cons.IH(1) [of "Some m" "Suc k" in_idx] by auto
      have "first_max (t # xs) (Suc p)" using p m by (intro first_max_Cons_Suc) auto
      moreover have "peak_loop (t # xs) (word_of_nat k) maxv in_idx = word_of_nat (k + Suc p)"
        unfolding peak_loop_Cons_of_nat using m p(2) by (simp del: of_nat_Suc of_nat_add)
      moreover have "case maxv of None \<Rightarrow> True | Some m \<Rightarrow> m < (t # xs) ! Suc p"
        using m p(3) by (auto split: option.splits)
      ultimately show ?thesis by blast
    qed }
  { case 2
    then obtain m where m: "maxv = Some m" "\<not> m < t" "\<not> (\<exists>x\<in>set xs. m < x)"
      by (cases maxv) auto
    have "peak_loop xs (word_of_nat (Suc k)) (Some m) in_idx = in_idx"
      using Cons.IH(2) [of "Some m" "Suc k" in_idx] m by auto
    then show ?case
      unfolding peak_loop_Cons_of_nat using m by simp }
qed

lemma peak_search_first_max:
  assumes "xs \<noteq> []"
  shows "\<exists>p. first_max xs p \<and> peak_search xs = word_of_nat p"
proof -
  have "\<exists>x\<in>set xs. (case (None :: real option) of None \<Rightarrow> True | Some m \<Rightarrow> m < x)"
    using assms by (cases xs) auto
  from peak_loop_first_max [OF this, of 0 0] show ?thesis
    by (auto simp: peak_search_def)
qed

lemma sint_wraparound:
  assumes p: "p < unat cs" and cs: "unat cs < 2 ^ 31"
  shows "sint (wraparound (word_of_nat p) cs q) =
           (if unat (cs - q div 2) < p then int p - int (unat cs) else int p)"
proof -
  have p31: "p < 2 ^ 31" using p cs by simp
  have sc: "(scast (word_of_nat p :: c_int) :: size_t) = word_of_nat p"
    using p31 by (rule scast_of_nat_32_64)
  have up: "unat (word_of_nat p :: size_t) = p"
    using p31 by (simp add: unat_of_nat)
  have cond: "(cs - q div 2 < scast (word_of_nat p :: c_int)) \<longleftrightarrow> unat (cs - q div 2) < p"
    unfolding sc word_less_nat_alt up ..
  define x where "x = int p - int (unat cs)"
  have c2: "unat cs < 2147483648" using cs by simp
  have "- 2147483648 \<le> x" "x < 2147483648"
    unfolding x_def using p c2 by linarith+
  then have xb: "- (2 ^ 31) \<le> x" "x < 2 ^ 31" by simp_all
  have sub: "(word_of_nat p :: size_t) - cs = word_of_int x"
    by (simp add: x_def)
  have "sint (ucast ((word_of_nat p :: size_t) - cs) :: c_int) = x"
  proof -
    have "(ucast (word_of_int x :: size_t) :: c_int) = word_of_int x"
      by (rule ucast_down_wi) (simp add: is_down)
    moreover have "sint (word_of_int x :: c_int) = x"
      using xb by (simp add: sint_sbintrunc' signed_take_bit_int_eq_self)
    ultimately show ?thesis unfolding sub by simp
  qed
  then have "sint (ucast ((word_of_nat p :: size_t) - cs) :: c_int) = int p - int (unat cs)"
    by (simp add: x_def)
  then show ?thesis
    using cond p31 by (simp add: wraparound_def sc sint_of_nat_32 del: of_nat_diff)
qed

lemma threshold_no_wrap:
  fixes q b cs :: size_t
  assumes "q + b \<le> cs" and "unat q + unat b < 2 ^ 64"
  shows "int (unat (cs - q div 2)) = int (unat cs) - int (unat q div 2)"
proof -
  have "unat (q + b) = unat q + unat b"
    using assms(2) by (simp add: unat_add_lem [THEN iffD1])
  then have "unat q \<le> unat cs" using assms(1) by (simp add: word_le_nat_alt)
  then have qd: "unat q div 2 \<le> unat cs" by simp
  then have "q div 2 \<le> cs" by (simp add: word_le_nat_alt unat_div)
  then have "unat (cs - q div 2) = unat cs - unat q div 2"
    by (simp add: unat_sub unat_div)
  then show ?thesis using qd by simp
qed

section \<open>Successful runs of the pipeline\<close>

lemma bind_comp_Done: "bind_comp m f = Done y \<longleftrightarrow> (\<exists>x. m = Done x \<and> f x = Done y)"
  by (cases m) auto

lemma ehmalloc_Done: "ehmalloc e sz = Done u \<longleftrightarrow> malloc_ok e sz"
  by (simp add: ehmalloc_def)

lemma fft_ehmalloc_Done: "fft_ehmalloc e sz = Done u \<longleftrightarrow> fftwf_malloc_ok e sz"
  by (simp add: fft_ehmalloc_def)

lemma ifft_Done:
  assumes "ifft e spec n t = Done xs"
  shows "length xs = unat n" and "unat n < 2 ^ 31" and "n \<noteq> 0"
  using assms
  by (auto simp: ifft_def Let_def bind_comp_Done ehmalloc_Done fft_ehmalloc_Done split: if_splits)

lemma resize_Done:
  assumes "resize e xs n_in n_out = Done ys"
  shows "length ys = unat n_out"
proof -
  define m where "m = (ucast (if n_out < n_in then n_out else n_in) :: c_int)"
  from assms have nn: "\<not> sint m < 0" and len: "\<not> length xs < nat (sint m)"
    and ys: "ys = take (nat (sint m)) xs @ replicate (unat n_out - nat (sint m)) 0"
    by (auto simp: resize_def Let_def bind_comp_Done ehmalloc_Done m_def split: if_splits)
  have "nat (sint m) \<le> unat (if n_out < n_in then n_out else n_in)"
    unfolding m_def by (rule sint_ucast_le)
  also have "\<dots> \<le> unat n_out"
    by (simp add: word_less_nat_alt)
  finally show ?thesis using len by (simp add: ys)
qed

lemma correlate_Done:
  assumes "correlate e impl base_buf track q = Done (convolved, cs)"
  shows "get_common_size (q + base_num_samples impl) = Some cs"
    and "length convolved = unat cs"
    and "unat cs < 2 ^ 31"
    and "cs \<noteq> 0"
    and "\<exists>track' base'. resize e track q cs = Done track' \<and> length track' = unat cs
           \<and> resize e base_buf (base_num_samples impl) cs = Done base' \<and> length base' = unat cs"
proof -
  from assms obtain cs' where g: "get_common_size (q + base_num_samples impl) = Some cs'"
    by (auto simp: correlate_def split: option.splits)
  from assms g obtain track' base' spec where
    r1: "resize e track q cs' = Done track'"
    and r2: "resize e base_buf (base_num_samples impl) cs' = Done base'"
    and i: "ifft e spec cs' (num_threads impl) = Done convolved" and c: "cs' = cs"
    by (auto simp: correlate_def bind_comp_Done split: prod.splits)
  show "get_common_size (q + base_num_samples impl) = Some cs" using g c by simp
  show "length convolved = unat cs" using ifft_Done(1) [OF i] c by simp
  show "unat cs < 2 ^ 31" using ifft_Done(2) [OF i] c by simp
  show "cs \<noteq> 0" using ifft_Done(3) [OF i] c by simp
  show "\<exists>track' base'. resize e track q cs = Done track' \<and> length track' = unat cs
           \<and> resize e base_buf (base_num_samples impl) cs = Done base' \<and> length base' = unat cs"
    using r1 r2 resize_Done [OF r1] resize_Done [OF r2] c by auto
qed

lemma correlate_peak:
  assumes "correlate e impl base_buf track q = Done (convolved, cs)"
  shows "\<exists>p. first_max convolved p \<and> p < unat cs \<and> peak_search convolved = word_of_nat p
            \<and> sint (peak_search convolved) = int p"
proof -
  note cd = correlate_Done [OF assms]
  have ne: "convolved \<noteq> []"
    using cd(2) cd(4) by (auto simp: unat_eq_0)
  from peak_search_first_max [OF ne] obtain p where
    p: "first_max convolved p" "peak_search convolved = word_of_nat p" by blast
  have plt: "p < unat cs" using p(1) cd(2) by (simp add: first_max_def)
  then have "p < 2 ^ 31" using cd(3) by simp
  then have "sint (peak_search convolved) = int p" by (simp add: p(2) sint_of_nat_32)
  with p plt show ?thesis by blast
qed

lemma rescale_Some:
  assumes "rescale impl in_idx len = Some (in_point, len')"
  shows "\<exists>t_in. rescaled impl (real_of_int (sint in_idx)) = Some t_in
           \<and> sint in_point = c_round t_in"
    and "\<exists>l t_len. double_round (real (unat len)) = Some l \<and> rescaled impl l = Some t_len
           \<and> int (unat len') = c_round t_len"
  using assms
  by (auto simp: rescale_def split: option.splits
           dest: int_of_double_Some size_t_of_double_Some)

lemma get_audio_range_SUCCESS:
  assumes "shenidam_get_audio_range e impl fmt samples n rate = Some (SUCCESS, impl', ip, len)"
  shows "\<exists>base_buf track q convolved cs in_point len'.
           base impl = Some base_buf \<and> 0 < rate \<and> n \<noteq> 0
           \<and> prepare_query e impl fmt samples n rate = Done (Some (track, q))
           \<and> correlate e impl base_buf track q = Done (convolved, cs)
           \<and> locate impl convolved cs q = Some (in_point, len')
           \<and> ip = Some in_point \<and> len = Some len' \<and> impl' = impl"
  using assms
  by (auto simp: shenidam_get_audio_range_def
           split: option.splits if_splits comp.splits prod.splits)

section \<open>Evaluation at the concrete inputs\<close>

lemma demo_session_fields:
  "base_sample_rate (demo_session w r) = w"
  "base_real_sample_rate (demo_session w r) = r"
  "base (demo_session w r) = Some [0]"
  "base_num_samples (demo_session w r) = 1"
  "frequential_filters (demo_session w r) = [None]"
  "frequential_filter_data (demo_session w r) = []"
  "num_threads (demo_session w r) = 1"
  by (simp_all add: demo_session_def)

lemma muted_session_fields:
  "base_sample_rate muted_session = 1"
  "base_real_sample_rate muted_session = 1"
  "base muted_session = Some [0]"
  "base_num_samples muted_session = 1"
  "frequential_filters muted_session = [Some (\<lambda>spectrum bins d i. 0), None]"
  "frequential_filter_data muted_session = [()]"
  "num_threads muted_session = 1"
  by (simp_all add: muted_session_def demo_session_def)

lemma demo_env_fields:
  "malloc_ok demo_env = (\<lambda>_. True)"
  "fftwf_malloc_ok demo_env = (\<lambda>_. True)"
  "src_simple demo_env = (\<lambda>xs ratio cap. take (unat cap) xs)"
  "fftwf_r2c demo_env = (\<lambda>n xs k. 1)"
  "fftwf_c2r demo_env = (\<lambda>n spec i. if Suc i = n then Re (spec ! 0) else 0)"
  "SHENIDAM_PARALLEL_OMP demo_env = False"
  "omp_get_num_threads demo_env = 1"
  by (simp_all add: demo_env_def)

lemma get_common_size_4: "get_common_size 4 = Some 4"
  by (simp add: get_common_size_def get_common_size_loop_less get_common_size_loop_stop)

lemma get_common_size_5: "get_common_size 5 = Some 8"
  by (simp add: get_common_size_def get_common_size_loop_less get_common_size_loop_stop)

lemma normalize_zeros:
  "normalize_samples [0, 0, 0] = [0, 0, 0]"
  "normalize_samples [0, 0, 0, 0] = [0, 0, 0, 0]"
  by (simp_all add: normalize_samples_def normalize_sums_def)

lemma demo_prepare_4:
  "prepare_query demo_env (demo_session 1 1) FORMAT_SINGLE [0, 0, 0, 0] 4 1
     = Done (Some ([0, 0, 0, 0], 4))"
  by (simp add: prepare_query_def convert_to_samples_def ehmalloc_def read_samples_def
        demo_env_fields demo_session_fields normalize_zeros)

lemma demo_correlate_4:
  "correlate demo_env (demo_session 1 1) [0] [0, 0, 0, 0] 4 = Done ([0, 0, 0, 0, 0, 0, 0, 1], 8)"
  apply (simp add: correlate_def demo_session_fields get_common_size_5)
  apply (simp add: resize_def fft_def ifft_def ehmalloc_def fft_ehmalloc_def demo_env_fields Let_def)
  apply (simp add: upt_rec)
  done

lemma demo_peak_4: "peak_search [0, 0, 0, 0, 0, 0, 0, 1] = 7"
  by (simp add: peak_search_def)

lemma demo_wraparound_4: "wraparound 7 8 4 = - 1"
  by (simp add: wraparound_def ucast_minus_1)

lemma double_round_values:
  "double_round (- 1) = Some (- 1)"
  "double_round 3 = Some 3"
  "double_round 4 = Some 4"
  "double_round 9 = Some 9"
  "double_round (1 / 2) = Some (1 / 2)"
  "double_round (9 / 2) = Some (9 / 2)"
proof -
  show "double_round (- 1) = Some (- 1)"
    by (rule double_round_exact [where e = 0 and k = "- (2 ^ 52)"])
       (simp_all add: power_int_minus_divide)
  show "double_round 3 = Some 3" using double_round_of_nat [of 3] by simp
  show "double_round 4 = Some 4" using double_round_of_nat [of 4] by simp
  show "double_round 9 = Some 9" using double_round_of_nat [of 9] by simp
  show "double_round (1 / 2) = Some (1 / 2)"
    by (rule double_round_exact [where e = "- 1" and k = "2 ^ 52"])
       (simp_all add: power_int_minus_divide)
  show "double_round (9 / 2) = Some (9 / 2)"
    by (rule double_round_exact [where e = 2 and k = "9 * 2 ^ 49"])
       (simp_all add: power_int_minus_divide)
qed

lemma demo_locate_4:
  "locate (demo_session 1 1) [0, 0, 0, 0, 0, 0, 0, 1] 8 4 = Some (- 1, 4)"
  by (simp add: locate_def demo_peak_4 demo_wraparound_4 rescale_def rescaled_def
        demo_session_fields double_round_values c_round_def int_of_double_def
        size_t_of_double_def)

lemma demo_call_4:
  "shenidam_get_audio_range demo_env (demo_session 1 1) FORMAT_SINGLE [0, 0, 0, 0] 4 1
     = Some (SUCCESS, demo_session 1 1, Some (- 1), Some 4)"
  by (simp add: shenidam_get_audio_range_def demo_session_fields demo_prepare_4
        demo_correlate_4 demo_locate_4)

lemma demo_prepare_3:
  "prepare_query demo_env (demo_session 6 1) FORMAT_SINGLE [0, 0, 0] 3 6
     = Done (Some ([0, 0, 0], 3))"
  by (simp add: prepare_query_def convert_to_samples_def ehmalloc_def read_samples_def
        demo_env_fields demo_session_fields normalize_zeros)

lemma demo_correlate_3:
  "correlate demo_env (demo_session w r) [0] [0, 0, 0] 3 = Done ([0, 0, 0, 1], 4)"
  apply (simp add: correlate_def demo_session_fields get_common_size_4)
  apply (simp add: resize_def fft_def ifft_def ehmalloc_def fft_ehmalloc_def demo_env_fields Let_def)
  apply (simp add: upt_rec)
  done

lemma demo_wraparound_3: "wraparound (peak_search [0, 0, 0, 1]) 4 3 = 3"
  by (simp add: peak_search_def wraparound_def)

lemma demo_locate_3: "locate (demo_session 6 1) [0, 0, 0, 1] 4 3 = Some (1, 1)"
  by (simp add: locate_def demo_wraparound_3 rescale_def rescaled_def demo_session_fields
        double_round_values c_round_def int_of_double_def size_t_of_double_def)

lemma demo_call_3:
  "shenidam_get_audio_range demo_env (demo_session 6 1) FORMAT_SINGLE [0, 0, 0] 3 6
     = Some (SUCCESS, demo_session 6 1, Some 1, Some 1)"
  by (simp add: shenidam_get_audio_range_def demo_session_fields demo_prepare_3
        demo_correlate_3 demo_locate_3)

lemma demo_prepare_3_at_2:
  "prepare_query demo_env (demo_session 2 3) FORMAT_SINGLE [0, 0, 0] 3 2
     = Done (Some ([0, 0, 0], 3))"
  by (simp add: prepare_query_def convert_to_samples_def ehmalloc_def read_samples_def
        demo_env_fields demo_session_fields normalize_zeros)

lemma demo_rescaled_3_at_2: "rescaled (demo_session 2 3) 3 = Some (9 / 2)"
  by (simp add: rescaled_def demo_session_fields double_round_values)

lemma c_round_9_2: "c_round (9 / 2) = 5"
  by (simp add: c_round_def)

lemma demo_locate_3_at_2: "locate (demo_session 2 3) [0, 0, 0, 1] 4 3 = Some (5, 5)"
  by (simp add: locate_def demo_wraparound_3 rescale_def demo_rescaled_3_at_2
        double_round_values c_round_9_2 int_of_double_def size_t_of_double_def)

lemma demo_call_3_at_2:
  "shenidam_get_audio_range demo_env (demo_session 2 3) FORMAT_SINGLE [0, 0, 0] 3 2
     = Some (SUCCESS, demo_session 2 3, Some 5, Some 5)"
  by (simp add: shenidam_get_audio_range_def demo_session_fields demo_prepare_3_at_2
        demo_correlate_3 demo_locate_3_at_2)

text \<open>
  The product is rounded before the quotient is taken. With the base rate
  \<open>6004799503160661 / 2 ^ 55\<close> (the \<^verbatim>\<open>double\<close> next below \<open>1 / 6\<close>), the working rate 1 and
  the index and count 3, the exact product lies half a unit in the last place below
  \<open>1 / 2\<close> and is rounded to \<open>1 / 2\<close>, which \<^verbatim>\<open>round\<close> takes to 1; the exact quotient would
  give 0.
\<close>

lemma double_round_tie:
  "double_round (18014398509481983 / 36028797018963968) = Some (1 / 2)"
proof -
  have "double_round (18014398509481983 / 36028797018963968) =
     (if 2 ^ 1024
         \<le> \<bar>real_of_int (round_to_even
              ((18014398509481983 / 36028797018963968) / 2 powi (- 2 - 52)))
            * 2 powi (- 2 - 52)\<bar>
      then None
      else Some (real_of_int (round_to_even
                   ((18014398509481983 / 36028797018963968) / 2 powi (- 2 - 52)))
                 * 2 powi (- 2 - 52)))"
    by (rule double_round_binade) (simp_all add: power_int_minus_divide)
  moreover have "(18014398509481983 / 36028797018963968) / 2 powi (- 2 - 52)
                   = (18014398509481983 / 2 :: real)"
    by (simp add: power_int_minus_divide)
  moreover have "round_to_even (18014398509481983 / 2) = 9007199254740992"
    by (simp add: round_to_even_def Let_def)
  moreover have "real_of_int 9007199254740992 * 2 powi (- 2 - 52) = 1 / 2"
    by (simp add: power_int_minus_divide)
  moreover have "\<not> 2 ^ 1024 \<le> \<bar>1 / 2 :: real\<bar>"
    by simp
  ultimately show ?thesis
    by (simp only: if_False)
qed

lemma rescale_rounds_product:
  "rescale (demo_session 1 (6004799503160661 / 36028797018963968)) 3 3 = Some (1, 1)"
proof -
  have "rescaled (demo_session 1 (6004799503160661 / 36028797018963968)) 3 = Some (1 / 2)"
    by (simp add: rescaled_def demo_session_fields double_round_tie double_round_values)
  then show ?thesis
    by (simp add: rescale_def double_round_values c_round_def int_of_double_def
          size_t_of_double_def)
qed

lemma muted_correlate_4:
  "correlate demo_env muted_session [0] [0, 0, 0, 0] 4 = Done ([0, 0, 0, 0, 0, 0, 0, 0], 8)"
  apply (simp add: correlate_def muted_session_fields get_common_size_5)
  apply (simp add: resize_def fft_def ifft_def ehmalloc_def fft_ehmalloc_def demo_env_fields Let_def
           run_filter_def)
  apply (simp add: upt_rec)
  done

section \<open>Claims about the aligner\<close>

text \<open>
  C2. In every successful \<^verbatim>\<open>shenidam_get_audio_range\<close> call, with \<open>p\<close> the index found by the
  peak search over the circular correlation of length \<open>cs\<close> and \<open>q\<close> the query's sample
  count at the working rate, the wraparound correction yields \<open>p - cs\<close> if \<open>p\<close> is strictly
  greater than the threshold \<open>cs - q div 2\<close>, and \<open>p\<close> otherwise; the returned offset is
  the rescaled corrected index (\<^verbatim>\<open>round\<close> of the \<^verbatim>\<open>double\<close> value \<open>t\<close>), so it may be
  negative. The threshold is computed in \<^verbatim>\<open>size_t\<close>; it is the integer \<open>cs - \<lfloor>q / 2\<rfloor>\<close>
  whenever the query and base counts add up without overflow.
\<close>

theorem wraparound_correction:
  assumes ok: "shenidam_get_audio_range e impl fmt samples num rate
                 = Some (SUCCESS, impl', Some in_point, Some len)"
    and b: "base impl = Some base_buf"
    and pq: "prepare_query e impl fmt samples num rate = Done (Some (track, q))"
    and co: "correlate e impl base_buf track q = Done (convolved, cs)"
  shows "\<exists>p<unat cs. sint (peak_search convolved) = int p
          \<and> sint (wraparound (peak_search convolved) cs q)
              = (if unat (cs - q div 2) < p then int p - int (unat cs) else int p)
          \<and> (unat q + unat (base_num_samples impl) < 2 ^ 64 \<longrightarrow>
                int (unat (cs - q div 2)) = int (unat cs) - int (unat q div 2))
          \<and> (\<exists>t. rescaled impl (real_of_int (sint (wraparound (peak_search convolved) cs q)))
                  = Some t
                \<and> sint in_point = c_round t)"
proof -
  note cd = correlate_Done [OF co]
  from correlate_peak [OF co] obtain p where
    p: "p < unat cs" "peak_search convolved = word_of_nat p"
       "sint (peak_search convolved) = int p"
    by blast
  have w: "sint (wraparound (peak_search convolved) cs q)
              = (if unat (cs - q div 2) < p then int p - int (unat cs) else int p)"
    unfolding p(2) by (rule sint_wraparound [OF p(1) cd(3)])
  have t: "unat q + unat (base_num_samples impl) < 2 ^ 64 \<longrightarrow>
             int (unat (cs - q div 2)) = int (unat cs) - int (unat q div 2)"
  proof
    assume "unat q + unat (base_num_samples impl) < 2 ^ 64"
    with get_common_size_bound [OF cd(1)]
    show "int (unat (cs - q div 2)) = int (unat cs) - int (unat q div 2)"
      by (rule threshold_no_wrap)
  qed
  from get_audio_range_SUCCESS [OF ok] b pq co
  have "locate impl convolved cs q = Some (in_point, len)" by auto
  then have r: "\<exists>t. rescaled impl (real_of_int (sint (wraparound (peak_search convolved) cs q)))
                  = Some t
                \<and> sint in_point = c_round t"
    unfolding locate_def by (rule rescale_Some(1))
  show ?thesis
    apply (rule exI [of _ p])
    using p(1) p(3) w t r apply simp
    done
qed

theorem wraparound_correction_witness:
  "shenidam_get_audio_range demo_env (demo_session 1 1) FORMAT_SINGLE [0, 0, 0, 0] 4 1
     = Some (SUCCESS, demo_session 1 1, Some (- 1), Some 4)
   \<and> correlate demo_env (demo_session 1 1) [0] [0, 0, 0, 0] 4
     = Done ([0, 0, 0, 0, 0, 0, 0, 1], 8)
   \<and> (\<exists>p<8. sint (peak_search [0, 0, 0, 0, 0, 0, 0, 1]) = int p
          \<and> unat (8 - 4 div 2 :: size_t) < p
          \<and> sint (wraparound (peak_search [0, 0, 0, 0, 0, 0, 0, 1]) 8 4) = int p - 8)
   \<and> sint (- 1 :: c_int) < 0"
proof -
  from wraparound_correction
         [OF demo_call_4 demo_session_fields(3) demo_prepare_4 demo_correlate_4]
  obtain p where p: "p < unat (8 :: size_t)"
    "sint (peak_search [0, 0, 0, 0, 0, 0, 0, 1]) = int p"
    "sint (wraparound (peak_search [0, 0, 0, 0, 0, 0, 0, 1]) 8 4)
       = (if unat (8 - 4 div 2 :: size_t) < p then int p - int (unat (8 :: size_t)) else int p)"
    by blast
  have p7: "p = 7" using p(2) by (simp add: demo_peak_4)
  have "\<exists>p<8. sint (peak_search [0, 0, 0, 0, 0, 0, 0, 1]) = int p
          \<and> unat (8 - 4 div 2 :: size_t) < p
          \<and> sint (wraparound (peak_search [0, 0, 0, 0, 0, 0, 0, 1]) 8 4) = int p - 8"
    apply (rule exI [of _ p])
    using p by (simp add: p7)
  then show ?thesis
    using demo_call_4 demo_correlate_4 by simp
qed

text \<open>
  C3. For the sequence of length \<open>cs\<close> that the inverse transform produces, the peak
  search returns an index \<open>p\<close> below \<open>cs\<close> at which the sequence takes its greatest value,
  every earlier value being strictly smaller (the first occurrence wins a tie); if all
  values are equal, as after a filter that zeroes every bin, the index is 0.
\<close>

theorem peak_search_first_maximum:
  assumes "correlate e impl base_buf track q = Done (convolved, cs)"
  shows "length convolved = unat cs
       \<and> (\<exists>p<unat cs. sint (peak_search convolved) = int p
             \<and> (\<forall>j<unat cs. convolved ! j \<le> convolved ! p)
             \<and> (\<forall>j<p. convolved ! j < convolved ! p))
       \<and> ((\<forall>j<unat cs. convolved ! j = convolved ! 0) \<longrightarrow> peak_search convolved = 0)"
proof -
  note cd = correlate_Done [OF assms]
  from correlate_peak [OF assms] obtain p where
    p: "first_max convolved p" "p < unat cs" "peak_search convolved = word_of_nat p"
       "sint (peak_search convolved) = int p"
    by blast
  have const: "(\<forall>j<unat cs. convolved ! j = convolved ! 0) \<longrightarrow> peak_search convolved = 0"
  proof
    assume "\<forall>j<unat cs. convolved ! j = convolved ! 0"
    then have "\<forall>j<length convolved. convolved ! j = convolved ! 0" unfolding cd(2) .
    then have "p = 0" by (rule first_max_constant [OF p(1)])
    then show "peak_search convolved = 0" using p(3) by simp
  qed
  have m1: "\<forall>j<unat cs. convolved ! j \<le> convolved ! p"
    using p(1) cd(2) by (simp add: first_max_def)
  have m2: "\<forall>j<p. convolved ! j < convolved ! p"
    using p(1) by (simp add: first_max_def)
  from p(2) p(4) m1 m2 have "\<exists>p<unat cs. sint (peak_search convolved) = int p
             \<and> (\<forall>j<unat cs. convolved ! j \<le> convolved ! p)
             \<and> (\<forall>j<p. convolved ! j < convolved ! p)"
    by blast
  with cd(2) const show ?thesis by blast
qed

theorem peak_search_first_maximum_witness:
  "correlate demo_env muted_session [0] [0, 0, 0, 0] 4 = Done ([0, 0, 0, 0, 0, 0, 0, 0], 8)
   \<and> set [0, 0, 0, 0, 0, 0, 0, 0 :: real] = {[0, 0, 0, 0, 0, 0, 0, 0] ! 0}
   \<and> peak_search [0, 0, 0, 0, 0, 0, 0, 0] = 0"
proof -
  have eq: "\<forall>j<8. [0, 0, 0, 0, 0, 0, 0, 0 :: real] ! j = [0, 0, 0, 0, 0, 0, 0, 0] ! 0"
  proof (intro allI impI)
    fix j :: nat
    assume "j < 8"
    then have "[0, 0, 0, 0, 0, 0, 0, 0 :: real] ! j \<in> set [0, 0, 0, 0, 0, 0, 0, 0]"
      by (intro nth_mem) simp
    then show "[0, 0, 0, 0, 0, 0, 0, 0 :: real] ! j = [0, 0, 0, 0, 0, 0, 0, 0] ! 0"
      by simp
  qed
  from peak_search_first_maximum [OF muted_correlate_4] eq
  have "peak_search [0, 0, 0, 0, 0, 0, 0, 0] = 0" by simp
  with muted_correlate_4 show ?thesis by simp
qed

text \<open>
  C4 (amended). For every \<open>n\<close> up to \<open>2 ^ 63\<close>, \<^verbatim>\<open>get_common_size\<close> returns the smallest power
  of two that is at least \<open>n\<close>; and in every successful query the query and the base
  are padded to, and the correlation has, the length that \<^verbatim>\<open>get_common_size\<close> returns for
  the sum of the query's working length and the base's working length.
\<close>

theorem common_size_smallest_power_of_two:
  "(unat n \<le> 2 ^ 63 \<longrightarrow>
      (\<exists>cs k. get_common_size n = Some cs \<and> unat cs = 2 ^ k \<and> unat n \<le> unat cs
          \<and> (\<forall>j. unat n \<le> 2 ^ j \<longrightarrow> unat cs \<le> 2 ^ j)))
   \<and> (shenidam_get_audio_range e impl fmt samples num rate = Some (SUCCESS, impl', ip, len) \<longrightarrow>
      (\<exists>base_buf track q cs track' base' convolved.
          base impl = Some base_buf
        \<and> prepare_query e impl fmt samples num rate = Done (Some (track, q))
        \<and> get_common_size (q + base_num_samples impl) = Some cs
        \<and> resize e track q cs = Done track' \<and> length track' = unat cs
        \<and> resize e base_buf (base_num_samples impl) cs = Done base' \<and> length base' = unat cs
        \<and> correlate e impl base_buf track q = Done (convolved, cs)
        \<and> length convolved = unat cs))"
proof (intro conjI impI)
  assume n: "unat n \<le> 2 ^ 63"
  from get_common_size_least [OF n] obtain k where k: "k \<le> 63"
    "get_common_size n = Some (2 ^ k)" "unat n \<le> 2 ^ k" "\<forall>j. unat n \<le> 2 ^ j \<longrightarrow> k \<le> j"
    by blast
  have u: "unat ((2::size_t) ^ k) = 2 ^ k" using k(1) by (intro unat_pow2_64) simp
  have "\<forall>j. unat n \<le> 2 ^ j \<longrightarrow> (2::nat) ^ k \<le> 2 ^ j"
    using k(4) by (auto intro: power_increasing)
  then show "\<exists>cs k. get_common_size n = Some cs \<and> unat cs = 2 ^ k \<and> unat n \<le> unat cs
          \<and> (\<forall>j. unat n \<le> 2 ^ j \<longrightarrow> unat cs \<le> 2 ^ j)"
    using k u by (intro exI [of _ "2 ^ k"] exI [of _ k]) simp
next
  assume "shenidam_get_audio_range e impl fmt samples num rate = Some (SUCCESS, impl', ip, len)"
  from get_audio_range_SUCCESS [OF this] obtain base_buf track q convolved cs where
    b: "base impl = Some base_buf"
    and p: "prepare_query e impl fmt samples num rate = Done (Some (track, q))"
    and c: "correlate e impl base_buf track q = Done (convolved, cs)"
    by blast
  from correlate_Done(5) [OF c] obtain track' base' where
    r: "resize e track q cs = Done track'" "length track' = unat cs"
       "resize e base_buf (base_num_samples impl) cs = Done base'" "length base' = unat cs"
    by blast
  show "\<exists>base_buf track q cs track' base' convolved.
          base impl = Some base_buf
        \<and> prepare_query e impl fmt samples num rate = Done (Some (track, q))
        \<and> get_common_size (q + base_num_samples impl) = Some cs
        \<and> resize e track q cs = Done track' \<and> length track' = unat cs
        \<and> resize e base_buf (base_num_samples impl) cs = Done base' \<and> length base' = unat cs
        \<and> correlate e impl base_buf track q = Done (convolved, cs)
        \<and> length convolved = unat cs"
    apply (rule exI [of _ base_buf], rule exI [of _ track], rule exI [of _ q], rule exI [of _ cs])
    apply (rule exI [of _ track'], rule exI [of _ base'], rule exI [of _ convolved])
    using b p c r correlate_Done(1,2) [OF c] apply simp
    done
qed

theorem common_size_smallest_power_of_two_witness:
  "unat (5 :: size_t) \<le> 2 ^ 63
   \<and> (\<exists>cs k. get_common_size 5 = Some cs \<and> unat cs = 2 ^ k \<and> unat (5 :: size_t) \<le> unat cs
         \<and> (\<forall>j. unat (5 :: size_t) \<le> 2 ^ j \<longrightarrow> unat cs \<le> 2 ^ j))
   \<and> shenidam_get_audio_range demo_env (demo_session 1 1) FORMAT_SINGLE [0, 0, 0, 0] 4 1
       = Some (SUCCESS, demo_session 1 1, Some (- 1), Some 4)
   \<and> get_common_size (4 + base_num_samples (demo_session 1 1)) = Some 8
   \<and> (\<exists>track' base' convolved.
         resize demo_env [0, 0, 0, 0] 4 8 = Done track' \<and> length track' = 8
       \<and> resize demo_env [0] (base_num_samples (demo_session 1 1)) 8 = Done base'
       \<and> length base' = 8
       \<and> correlate demo_env (demo_session 1 1) [0] [0, 0, 0, 0] 4 = Done (convolved, 8)
       \<and> length convolved = 8)"
proof -
  note t = common_size_smallest_power_of_two
             [of 5 demo_env "demo_session 1 1" FORMAT_SINGLE "[0, 0, 0, 0]" 4 1
                 "demo_session 1 1" "Some (- 1)" "Some 4"]
  have five: "unat (5 :: size_t) \<le> 2 ^ 63" by simp
  from t five have a: "\<exists>cs k. get_common_size 5 = Some cs \<and> unat cs = 2 ^ k
         \<and> unat (5 :: size_t) \<le> unat cs
         \<and> (\<forall>j. unat (5 :: size_t) \<le> 2 ^ j \<longrightarrow> unat cs \<le> 2 ^ j)"
    by blast
  from t demo_call_4 obtain base_buf track q cs track' base' convolved where
    r: "base (demo_session 1 1) = Some base_buf"
       "prepare_query demo_env (demo_session 1 1) FORMAT_SINGLE [0, 0, 0, 0] 4 1
          = Done (Some (track, q))"
       "get_common_size (q + base_num_samples (demo_session 1 1)) = Some cs"
       "resize demo_env track q cs = Done track'" "length track' = unat cs"
       "resize demo_env base_buf (base_num_samples (demo_session 1 1)) cs = Done base'"
       "length base' = unat cs"
       "correlate demo_env (demo_session 1 1) base_buf track q = Done (convolved, cs)"
       "length convolved = unat cs"
    by blast
  have v: "base_buf = [0]" "track = [0, 0, 0, 0]" "q = 4"
    using r(1) r(2) [unfolded demo_prepare_4] by (simp_all add: demo_session_fields)
  have cs: "cs = 8"
    using r(3) by (simp add: v demo_session_fields get_common_size_5)
  have "\<exists>track' base' convolved.
         resize demo_env [0, 0, 0, 0] 4 8 = Done track' \<and> length track' = 8
       \<and> resize demo_env [0] (base_num_samples (demo_session 1 1)) 8 = Done base'
       \<and> length base' = 8
       \<and> correlate demo_env (demo_session 1 1) [0] [0, 0, 0, 0] 4 = Done (convolved, 8)
       \<and> length convolved = 8"
    apply (rule exI [of _ track'], rule exI [of _ base'], rule exI [of _ convolved])
    using r(4-9) by (simp add: v cs)
  with five a demo_call_4 show ?thesis
    by (simp add: demo_session_fields get_common_size_5)
qed

theorem common_size_counterexample: "get_common_size (2 ^ 63 + 1) = None"
  by (rule get_common_size_diverges) simp

text \<open>
  C9 (amended). Every successful \<^verbatim>\<open>shenidam_get_audio_range\<close> call returns
  \<open>offset = round (peak * baseOriginalRate / baseWorkingRate)\<close>, where \<open>peak\<close> is the
  corrected peak index, and \<open>length = round (queryWorkingLength * baseOriginalRate /
  baseWorkingRate)\<close>, the product and the quotient being those of \<^verbatim>\<open>double\<close> arithmetic,
  each rounded (the conversion of \<open>queryWorkingLength\<close> to \<^verbatim>\<open>double\<close> is exact below
  \<open>2 ^ 53\<close>). The returned length is within \<open>1 / 2\<close> of the \<^verbatim>\<open>double\<close> quotient. For rates
  in the normal range of \<^verbatim>\<open>double\<close> (original rate at least \<open>2 ^ - 1020\<close>, working rate
  positive and at most \<open>2 ^ 1020\<close> times the original rate), the returned length converted
  back to the working rate differs from \<open>queryWorkingLength\<close> by at most
  \<open>baseWorkingRate / (2 * baseOriginalRate) + queryWorkingLength / 2 ^ 51\<close>: half a
  returned sample, plus the rounding of the three \<^verbatim>\<open>double\<close> operations. That is more than
  1 as soon as the working rate exceeds twice the original rate.
\<close>

theorem rescaled_offset_and_length:
  assumes ok: "shenidam_get_audio_range e impl fmt samples num rate
                 = Some (SUCCESS, impl', Some in_point, Some len)"
  shows "\<exists>base_buf track q convolved cs t_in l t_len.
           base impl = Some base_buf
         \<and> prepare_query e impl fmt samples num rate = Done (Some (track, q))
         \<and> correlate e impl base_buf track q = Done (convolved, cs)
         \<and> rescaled impl (real_of_int (sint (wraparound (peak_search convolved) cs q)))
             = Some t_in
         \<and> sint in_point = c_round t_in
         \<and> double_round (real (unat q)) = Some l
         \<and> (unat q < 2 ^ 53 \<longrightarrow> l = real (unat q))
         \<and> rescaled impl l = Some t_len
         \<and> int (unat len) = c_round t_len
         \<and> \<bar>real (unat len) - t_len\<bar> \<le> 1 / 2
         \<and> (1 / 2 ^ 1020 \<le> base_real_sample_rate impl \<and> 0 < base_sample_rate impl
              \<and> base_sample_rate impl / 2 ^ 1020 \<le> base_real_sample_rate impl \<longrightarrow>
              \<bar>real (unat len) * base_sample_rate impl / base_real_sample_rate impl
                 - real (unat q)\<bar>
                \<le> base_sample_rate impl / (2 * base_real_sample_rate impl)
                    + real (unat q) / 2 ^ 51)"
proof -
  from get_audio_range_SUCCESS [OF ok] obtain base_buf track q convolved cs where
    b: "base impl = Some base_buf"
    and p: "prepare_query e impl fmt samples num rate = Done (Some (track, q))"
    and c: "correlate e impl base_buf track q = Done (convolved, cs)"
    and lo: "locate impl convolved cs q = Some (in_point, len)"
    by auto
  note r = rescale_Some [OF lo [unfolded locate_def]]
  from r(1) obtain t_in where
    ti: "rescaled impl (real_of_int (sint (wraparound (peak_search convolved) cs q)))
           = Some t_in"
        "sint in_point = c_round t_in"
    by blast
  from r(2) obtain l t_len where
    l: "double_round (real (unat q)) = Some l"
    and tl: "rescaled impl l = Some t_len"
    and k: "int (unat len) = c_round t_len"
    by blast
  have exact: "unat q < 2 ^ 53 \<longrightarrow> l = real (unat q)"
  proof
    assume "unat q < 2 ^ 53"
    then have "double_round (real (unat q)) = Some (real (unat q))"
      by (rule double_round_of_nat)
    with l show "l = real (unat q)" by simp
  qed
  have half: "\<bar>real (unat len) - t_len\<bar> \<le> 1 / 2"
    using c_round_error [of t_len] k by (metis of_int_of_nat_eq)
  from rescaled_Some [OF tl] obtain pr where
    pr: "double_round (l * base_real_sample_rate impl) = Some pr"
        "double_round (pr / base_sample_rate impl) = Some t_len"
    by blast
  have conv: "1 / 2 ^ 1020 \<le> base_real_sample_rate impl \<and> 0 < base_sample_rate impl
              \<and> base_sample_rate impl / 2 ^ 1020 \<le> base_real_sample_rate impl \<longrightarrow>
              \<bar>real (unat len) * base_sample_rate impl / base_real_sample_rate impl
                 - real (unat q)\<bar>
                \<le> base_sample_rate impl / (2 * base_real_sample_rate impl)
                    + real (unat q) / 2 ^ 51"
  proof
    assume h: "1 / 2 ^ 1020 \<le> base_real_sample_rate impl \<and> 0 < base_sample_rate impl
              \<and> base_sample_rate impl / 2 ^ 1020 \<le> base_real_sample_rate impl"
    then have h1: "1 / 2 ^ 1020 \<le> base_real_sample_rate impl"
      and h2: "0 < base_sample_rate impl"
      and h3: "base_sample_rate impl / 2 ^ 1020 \<le> base_real_sample_rate impl"
      by blast+
    from h1 h2 h3 l pr k
    show "\<bar>real (unat len) * base_sample_rate impl / base_real_sample_rate impl
                 - real (unat q)\<bar>
                \<le> base_sample_rate impl / (2 * base_real_sample_rate impl)
                    + real (unat q) / 2 ^ 51"
      by (rule converted_back_error)
  qed
  show ?thesis
    apply (rule exI [of _ base_buf])
    apply (rule exI [of _ track], rule exI [of _ q])
    apply (rule exI [of _ convolved], rule exI [of _ cs])
    apply (rule exI [of _ t_in], rule exI [of _ l], rule exI [of _ t_len])
    apply (intro conjI)
    apply (rule b, rule p, rule c, rule ti(1), rule ti(2), rule l, rule exact, rule tl, rule k)
    apply (rule half, rule conv)
    done
qed

theorem rescaled_offset_and_length_witness:
  "shenidam_get_audio_range demo_env (demo_session 2 3) FORMAT_SINGLE [0, 0, 0] 3 2
     = Some (SUCCESS, demo_session 2 3, Some 5, Some 5)
   \<and> rescaled (demo_session 2 3)
       (real_of_int (sint (wraparound (peak_search [0, 0, 0, 1]) 4 3))) = Some (9 / 2)
   \<and> sint (5 :: c_int) = c_round (9 / 2)
   \<and> double_round (real (unat (3 :: size_t))) = Some 3
   \<and> rescaled (demo_session 2 3) 3 = Some (9 / 2)
   \<and> int (unat (5 :: size_t)) = c_round (9 / 2)
   \<and> 1 / 2 ^ 1020 \<le> base_real_sample_rate (demo_session 2 3)
   \<and> 0 < base_sample_rate (demo_session 2 3)
   \<and> base_sample_rate (demo_session 2 3) / 2 ^ 1020 \<le> base_real_sample_rate (demo_session 2 3)
   \<and> \<bar>real (unat (5 :: size_t)) * 2 / 3 - real (unat (3 :: size_t))\<bar>
       \<le> 2 / (2 * 3) + real (unat (3 :: size_t)) / 2 ^ 51"
proof -
  have h: "1 / 2 ^ 1020 \<le> base_real_sample_rate (demo_session 2 3)"
    "0 < base_sample_rate (demo_session 2 3)"
    "base_sample_rate (demo_session 2 3) / 2 ^ 1020 \<le> base_real_sample_rate (demo_session 2 3)"
    by (simp_all add: demo_session_fields)
  from rescaled_offset_and_length [OF demo_call_3_at_2]
  obtain base_buf track q convolved cs t_in l t_len where
    r: "base (demo_session 2 3) = Some base_buf"
       "prepare_query demo_env (demo_session 2 3) FORMAT_SINGLE [0, 0, 0] 3 2
          = Done (Some (track, q))"
       "correlate demo_env (demo_session 2 3) base_buf track q = Done (convolved, cs)"
       "rescaled (demo_session 2 3)
          (real_of_int (sint (wraparound (peak_search convolved) cs q))) = Some t_in"
       "sint (5 :: c_int) = c_round t_in"
       "double_round (real (unat q)) = Some l"
       "rescaled (demo_session 2 3) l = Some t_len"
       "int (unat (5 :: size_t)) = c_round t_len"
       "1 / 2 ^ 1020 \<le> base_real_sample_rate (demo_session 2 3)
          \<and> 0 < base_sample_rate (demo_session 2 3)
          \<and> base_sample_rate (demo_session 2 3) / 2 ^ 1020
              \<le> base_real_sample_rate (demo_session 2 3) \<longrightarrow>
        \<bar>real (unat (5 :: size_t)) * base_sample_rate (demo_session 2 3)
            / base_real_sample_rate (demo_session 2 3) - real (unat q)\<bar>
          \<le> base_sample_rate (demo_session 2 3) / (2 * base_real_sample_rate (demo_session 2 3))
              + real (unat q) / 2 ^ 51"
    by blast
  have v: "base_buf = [0]" "track = [0, 0, 0]" "q = 3"
    using r(1) r(2) [unfolded demo_prepare_3_at_2] by (simp_all add: demo_session_fields)
  have c: "convolved = [0, 0, 0, 1]" "cs = 4"
    using r(3) by (simp_all add: v demo_correlate_3)
  have l3: "l = 3"
    using r(6) by (simp add: v double_round_values)
  have ti: "t_in = 9 / 2"
    using r(4) by (simp add: v c demo_wraparound_3 demo_rescaled_3_at_2)
  have tl: "t_len = 9 / 2"
    using r(7) by (simp add: l3 demo_rescaled_3_at_2)
  from r(9) h
  have bound: "\<bar>real (unat (5 :: size_t)) * base_sample_rate (demo_session 2 3)
            / base_real_sample_rate (demo_session 2 3) - real (unat q)\<bar>
          \<le> base_sample_rate (demo_session 2 3) / (2 * base_real_sample_rate (demo_session 2 3))
              + real (unat q) / 2 ^ 51"
    by blast
  have b': "\<bar>real (unat (5 :: size_t)) * 2 / 3 - real (unat (3 :: size_t))\<bar>
       \<le> 2 / (2 * 3) + real (unat (3 :: size_t)) / 2 ^ 51"
    using bound unfolding v demo_session_fields .
  have r4: "rescaled (demo_session 2 3)
       (real_of_int (sint (wraparound (peak_search [0, 0, 0, 1]) 4 3))) = Some (9 / 2)"
    using r(4) unfolding v c ti .
  have r5: "sint (5 :: c_int) = c_round (9 / 2)" using r(5) unfolding ti .
  have r6: "double_round (real (unat (3 :: size_t))) = Some 3" using r(6) unfolding v l3 .
  have r7: "rescaled (demo_session 2 3) 3 = Some (9 / 2)" using r(7) unfolding l3 tl .
  have r8: "int (unat (5 :: size_t)) = c_round (9 / 2)" using r(8) unfolding tl .
  from demo_call_3_at_2 r4 r5 r6 r7 r8 h b' show ?thesis
    by (intro conjI)
qed

theorem rescaled_length_counterexample:
  "shenidam_get_audio_range demo_env (demo_session 6 1) FORMAT_SINGLE [0, 0, 0] 3 6
     = Some (SUCCESS, demo_session 6 1, Some 1, Some 1)
   \<and> prepare_query demo_env (demo_session 6 1) FORMAT_SINGLE [0, 0, 0] 3 6
     = Done (Some ([0, 0, 0], 3))
   \<and> \<not> \<bar>real (unat (1 :: size_t)) * base_sample_rate (demo_session 6 1)
            / base_real_sample_rate (demo_session 6 1) - real (unat (3 :: size_t))\<bar> \<le> 1"
  by (simp add: demo_call_3 demo_prepare_3 demo_session_fields)

section \<open>Claims about the session interface\<close>

lemma set_base_audio_SUCCESS:
  assumes "shenidam_set_base_audio e impl fmt samples n rate = Some (SUCCESS, impl1)"
  shows "base impl = None"
    and "\<exists>temp n'. impl1 = impl\<lparr>base_num_samples := n', base := Some temp,
                                  base_real_sample_rate := rate\<rparr>"
proof -
  show none: "base impl = None"
    using assms by (auto simp: shenidam_set_base_audio_def split: if_splits)
  from assms none
  have body: "set_base_audio_body e impl fmt samples n rate = Done (SUCCESS, impl1)"
    by (auto simp: shenidam_set_base_audio_def split: comp.splits)
  then obtain conv where
    conv: "(case conv of
              None \<Rightarrow> Done (INVALID_ARGUMENT, impl)
            | Some base0 \<Rightarrow>
                if rate = 0 then Undef
                else
                  (case size_t_of_double
                          (c_round (real (unat n) * base_sample_rate impl / rate)) of
                     None \<Rightarrow> Undef
                   | Some num_samples_new \<Rightarrow>
                       bind_comp (resample_parallel e (normalize_samples base0) n
                                    (base_sample_rate impl / rate) num_samples_new)
                         (\<lambda>(temp, num_samples_new').
                            Done (SUCCESS,
                                  impl\<lparr>base_num_samples := num_samples_new',
                                       base := Some temp,
                                       base_real_sample_rate := rate\<rparr>))))
           = Done (SUCCESS, impl1)"
    unfolding set_base_audio_body_def bind_comp_Done by blast
  then obtain base0 where c: "conv = Some base0" by (cases conv) auto
  from conv c have r: "rate \<noteq> 0" by (auto split: if_splits)
  from conv c r obtain m where
    "bind_comp (resample_parallel e (normalize_samples base0) n
                  (base_sample_rate impl / rate) m)
       (\<lambda>(temp, num_samples_new').
          Done (SUCCESS,
                impl\<lparr>base_num_samples := num_samples_new', base := Some temp,
                     base_real_sample_rate := rate\<rparr>))
     = Done (SUCCESS, impl1)"
    by (auto split: option.splits)
  then show "\<exists>temp n'. impl1 = impl\<lparr>base_num_samples := n', base := Some temp,
                                  base_real_sample_rate := rate\<rparr>"
    unfolding bind_comp_Done by (auto split: prod.splits)
qed

lemma demo_first_commit:
  "shenidam_set_base_audio demo_env (shenidam_create 1 1 0 0) FORMAT_SINGLE [0] 1 1
     = Some (SUCCESS, demo_session 1 1)"
  by (simp add: shenidam_set_base_audio_def set_base_audio_body_def shenidam_create_def
        convert_to_samples_def read_samples_def ehmalloc_def resample_parallel_def resample_def
        demo_env_fields normalize_samples_def normalize_sums_def c_round_def
        size_t_of_double_def demo_session_def)

text \<open>
  C7. Once \<^verbatim>\<open>shenidam_set_base_audio\<close> has succeeded on a session, every further call,
  whatever its arguments and whatever the allocator does, returns
  \<open>ALREADY_SET_BASE_SIGNAL\<close> and leaves the whole session, and with it the committed
  buffer, its count and the recorded rates, as it was.
\<close>

theorem second_set_base_audio_rejected:
  assumes "shenidam_set_base_audio e impl fmt samples n rate = Some (SUCCESS, impl1)"
  shows "shenidam_set_base_audio e' impl1 fmt' samples' n' rate'
           = Some (ALREADY_SET_BASE_SIGNAL, impl1)"
  using set_base_audio_SUCCESS(2) [OF assms] by (auto simp: shenidam_set_base_audio_def)

theorem second_set_base_audio_rejected_witness:
  "shenidam_set_base_audio demo_env (shenidam_create 1 1 0 0) FORMAT_SINGLE [0] 1 1
     = Some (SUCCESS, demo_session 1 1)
   \<and> shenidam_set_base_audio no_memory_env (demo_session 1 1) FORMAT_DOUBLE [5, 6] 2 2
     = Some (ALREADY_SET_BASE_SIGNAL, demo_session 1 1)"
  using second_set_base_audio_rejected [OF demo_first_commit] demo_first_commit by simp

text \<open>
  C8 (amended). Without a committed base \<^verbatim>\<open>shenidam_get_audio_range\<close> returns
  \<open>BASE_SIGNAL_NOT_SET\<close>. With a committed base, a sample rate that is not positive or a
  count of 0 returns \<open>INVALID_ARGUMENT\<close>; an unsupported format tag returns
  \<open>INVALID_ARGUMENT\<close> if the conversion buffer, which is requested before the tag is
  looked at and freed again, can be allocated, and \<open>ALLOCATION_ERROR\<close> if it cannot. In
  each case nothing is stored through the output pointers and the session is unchanged.
\<close>

theorem get_audio_range_precondition_errors:
  "(base impl = None \<longrightarrow>
      shenidam_get_audio_range e impl fmt samples n rate
        = Some (BASE_SIGNAL_NOT_SET, impl, None, None))
   \<and> (base impl \<noteq> None \<and> (rate \<le> 0 \<or> n = 0) \<longrightarrow>
      shenidam_get_audio_range e impl fmt samples n rate
        = Some (INVALID_ARGUMENT, impl, None, None))
   \<and> (base impl \<noteq> None \<and> 0 < rate \<and> n \<noteq> 0 \<longrightarrow>
      shenidam_get_audio_range e impl (FORMAT_OTHER t) samples n rate
        = Some (if malloc_ok e (4 * n) then INVALID_ARGUMENT else ALLOCATION_ERROR,
                impl, None, None))"
  by (auto simp: shenidam_get_audio_range_def prepare_query_def convert_to_samples_def
        ehmalloc_def)

theorem get_audio_range_precondition_errors_witness:
  "base (shenidam_create 1 1 0 0 :: unit shenidam_t_impl) = None
   \<and> shenidam_get_audio_range demo_env (shenidam_create 1 1 0 0 :: unit shenidam_t_impl)
        FORMAT_SINGLE [0] 1 1
       = Some (BASE_SIGNAL_NOT_SET, shenidam_create 1 1 0 0, None, None)
   \<and> base (demo_session 1 1) \<noteq> None
   \<and> shenidam_get_audio_range demo_env (demo_session 1 1) FORMAT_SINGLE [0] 1 0
       = Some (INVALID_ARGUMENT, demo_session 1 1, None, None)
   \<and> shenidam_get_audio_range demo_env (demo_session 1 1) FORMAT_SINGLE [] 0 1
       = Some (INVALID_ARGUMENT, demo_session 1 1, None, None)
   \<and> malloc_ok demo_env (4 * 1)
   \<and> shenidam_get_audio_range demo_env (demo_session 1 1) (FORMAT_OTHER 99) [0] 1 1
       = Some (INVALID_ARGUMENT, demo_session 1 1, None, None)"
proof -
  have b0: "base (shenidam_create 1 1 0 0 :: unit shenidam_t_impl) = None"
    by (simp add: shenidam_create_def)
  have b1: "base (demo_session 1 1) \<noteq> None"
    by (simp add: demo_session_fields)
  have m: "malloc_ok demo_env (4 * 1)"
    by (simp add: demo_env_fields)
  from get_audio_range_precondition_errors
         [where impl = "shenidam_create 1 1 0 0 :: unit shenidam_t_impl" and e = demo_env
            and fmt = FORMAT_SINGLE and samples = "[0]" and n = 1 and rate = 1]
       b0
  have 1: "shenidam_get_audio_range demo_env (shenidam_create 1 1 0 0 :: unit shenidam_t_impl)
        FORMAT_SINGLE [0] 1 1
       = Some (BASE_SIGNAL_NOT_SET, shenidam_create 1 1 0 0, None, None)"
    by blast
  from get_audio_range_precondition_errors
         [where impl = "demo_session 1 1" and e = demo_env and fmt = FORMAT_SINGLE
            and samples = "[0]" and n = 1 and rate = 0] b1
  have 2: "shenidam_get_audio_range demo_env (demo_session 1 1) FORMAT_SINGLE [0] 1 0
       = Some (INVALID_ARGUMENT, demo_session 1 1, None, None)"
    by simp
  from get_audio_range_precondition_errors
         [where impl = "demo_session 1 1" and e = demo_env and fmt = FORMAT_SINGLE
            and samples = "[]" and n = 0 and rate = 1] b1
  have 3: "shenidam_get_audio_range demo_env (demo_session 1 1) FORMAT_SINGLE [] 0 1
       = Some (INVALID_ARGUMENT, demo_session 1 1, None, None)"
    by simp
  from get_audio_range_precondition_errors
         [where impl = "demo_session 1 1" and e = demo_env and t = 99
            and samples = "[0]" and n = 1 and rate = 1] b1 m
  have 4: "shenidam_get_audio_range demo_env (demo_session 1 1) (FORMAT_OTHER 99) [0] 1 1
       = Some (INVALID_ARGUMENT, demo_session 1 1, None, None)"
    by simp
  from b0 1 b1 2 3 m 4 show ?thesis by blast
qed

theorem unsupported_format_counterexample:
  "base (demo_session 1 1) \<noteq> None
   \<and> shenidam_get_audio_range no_memory_env (demo_session 1 1) (FORMAT_OTHER 99) [0] 1 1
       = Some (ALLOCATION_ERROR, demo_session 1 1, None, None)
   \<and> ALLOCATION_ERROR \<noteq> INVALID_ARGUMENT"
  by (simp add: shenidam_get_audio_range_def prepare_query_def convert_to_samples_def
        ehmalloc_def demo_session_fields no_memory_env_def)

section \<open>Where the code departs from the claims\<close>

lemma normalize_sums_fold:
  "fold (\<lambda>x (mean, var). (mean + x, var + x * x)) xs (a, b)
     = (a + sum_list xs, b + sum_list (map (\<lambda>x. x * x) xs))"
  by (induction xs arbitrary: a b) (simp_all add: add.assoc)

lemma normalize_sums_eq:
  "normalize_sums xs = (sum_list xs, sum_list (map (\<lambda>x. x * x) xs))"
  by (simp add: normalize_sums_def normalize_sums_fold)

lemma normalize_constant: "normalize_samples (replicate n c) = replicate n 0"
proof (cases "n = 0")
  case True
  then show ?thesis by (simp add: normalize_samples_def normalize_sums_eq)
next
  case False
  then have "real n * c / real n = c" by simp
  then show ?thesis
    by (simp add: normalize_samples_def normalize_sums_eq sum_list_replicate map_replicate_const
          Let_def)
qed

text \<open>
  C1. The claim has \<^verbatim>\<open>normalize\<close> divide the centred samples by the standard deviation.
  The code divides by the square root of the sum of squares minus the squared mean:
  the sum of squares is never divided by the count. For \<open>[1, -1, 1, -1]\<close>, of mean 0
  and standard deviation 1, it divides by \<open>sqrt (4 - 0) = 2\<close>. (Over the reals constant
  sequences do come out as all zeros, \<open>normalize_constant\<close>; in \<^verbatim>\<open>float\<close> arithmetic,
  which is not represented here, the rounded square can fall below the squared mean
  and the root is then NaN.)
\<close>

theorem normalize_divides_by_unscaled_root:
  "normalize_samples [1, - 1, 1, - 1] = [1 / 2, - 1 / 2, 1 / 2, - 1 / 2]"
  by (simp add: normalize_samples_def normalize_sums_def)

text \<open>
  C5. With two threads and the input \<open>[1, 2, 3, 4]\<close> at ratio 1 the two slices are
  resampled to \<open>[1, 2]\<close> and \<open>[3, 4]\<close>, and the returned count is their total 4; but the
  returned samples are not their concatenation: \<^verbatim>\<open>memcpy\<close> is given \<^verbatim>\<open>&buffers[i]\<close>, so
  it copies what the table of buffer pointers reads as (here \<open>[5, 6, 7, 8]\<close>). The
  capacity of each slice's output is taken from the uninitialised \<^verbatim>\<open>buffer_sizes[i]\<close>.
\<close>

theorem resample_parallel_copies_pointer_table:
  "thread_outputs omp_env [1, 2, 3, 4] 4 1 2 [0, 1] = Done [([1, 2], 2), ([3, 4], 2)]
   \<and> resample_parallel omp_env [1, 2, 3, 4] 4 1 4 = Done ([5, 6, 7, 8], 4)"
proof -
  have f: "malloc_ok omp_env = (\<lambda>_. True)"
    "src_simple omp_env = (\<lambda>xs ratio cap. take (unat cap) xs)"
    "SHENIDAM_PARALLEL_OMP omp_env = True" "omp_get_num_threads omp_env = 2"
    "uninit_size_t omp_env = (\<lambda>_. 2)"
    "pointer_bits omp_env = (\<lambda>i. if i = 0 then (5, 6) else (7, 8))"
    by (simp_all add: omp_env_def demo_env_def)
  have t: "thread_outputs omp_env [1, 2, 3, 4] 4 1 2 [0, 1] = Done [([1, 2], 2), ([3, 4], 2)]"
    by (simp add: slice_of_def resample_def ehmalloc_def f)
  have u: "[0..<2] = [0, 1]" by (simp add: upt_rec)
  have p: "pointer_table omp_env 2 = [5, 6, 7, 8]"
    by (simp add: pointer_table_def f u)
  have n: "omp_get_num_threads omp_env \<noteq> 1" "omp_get_num_threads omp_env \<noteq> 0"
    by (simp_all add: f)
  have "resample_parallel omp_env [1, 2, 3, 4] 4 1 4 = Done ([5, 6, 7, 8], 4)"
    apply (subst resample_parallel_def)
    apply (simp only: f(1,3) n not_True_eq_False if_False)
    apply (simp only: f(4) u t p)
    apply (simp add: f(1))
    done
  with t show ?thesis by simp
qed

lemma convert_to_samples_supported:
  assumes "\<And>t. fmt \<noteq> FORMAT_OTHER t"
  shows "convert_to_samples e fmt samples n \<noteq> Done None"
  using assms
  by (cases fmt) (auto simp: convert_to_samples_def read_samples_def ehmalloc_def)

lemma set_base_audio_ignores_rate_sign:
  assumes "\<And>t. fmt \<noteq> FORMAT_OTHER t"
  shows "shenidam_set_base_audio e impl fmt samples n rate \<noteq> Some (INVALID_ARGUMENT, impl')"
proof
  assume a: "shenidam_set_base_audio e impl fmt samples n rate = Some (INVALID_ARGUMENT, impl')"
  then have "set_base_audio_body e impl fmt samples n rate = Done (INVALID_ARGUMENT, impl')"
    by (auto simp: shenidam_set_base_audio_def split: if_splits comp.splits)
  then obtain conv where
    c: "convert_to_samples e fmt samples n = Done conv"
    and conv: "(case conv of
              None \<Rightarrow> Done (INVALID_ARGUMENT, impl)
            | Some base0 \<Rightarrow>
                if rate = 0 then Undef
                else
                  (case size_t_of_double
                          (c_round (real (unat n) * base_sample_rate impl / rate)) of
                     None \<Rightarrow> Undef
                   | Some num_samples_new \<Rightarrow>
                       bind_comp (resample_parallel e (normalize_samples base0) n
                                    (base_sample_rate impl / rate) num_samples_new)
                         (\<lambda>(temp, num_samples_new').
                            Done (SUCCESS,
                                  impl\<lparr>base_num_samples := num_samples_new',
                                       base := Some temp,
                                       base_real_sample_rate := rate\<rparr>))))
           = Done (INVALID_ARGUMENT, impl')"
    unfolding set_base_audio_body_def bind_comp_Done by blast
  from c convert_to_samples_supported [OF assms] obtain base0 where s: "conv = Some base0"
    by (cases conv) auto
  from conv s have r: "rate \<noteq> 0" by (auto split: if_splits)
  from conv s r obtain m where
    "bind_comp (resample_parallel e (normalize_samples base0) n
                  (base_sample_rate impl / rate) m)
       (\<lambda>(temp, num_samples_new').
          Done (SUCCESS,
                impl\<lparr>base_num_samples := num_samples_new', base := Some temp,
                     base_real_sample_rate := rate\<rparr>))
     = Done (INVALID_ARGUMENT, impl')"
    by (auto split: option.splits)
  then show False
    unfolding bind_comp_Done by (auto split: prod.splits)
qed

text \<open>
  C6. The claim has \<^verbatim>\<open>shenidam_set_base_audio\<close> return \<open>INVALID_ARGUMENT\<close> for a sample rate
  that is not positive. The code tests the rate nowhere (\<^verbatim>\<open>shenidam_get_audio_range\<close> does):
  with the rate \<open>-4\<close> on a fresh session of working rate 1 it commits a base and returns
  \<open>SUCCESS\<close>, recording \<open>-4\<close> as the base's rate. For a supported format it never returns
  \<open>INVALID_ARGUMENT\<close> (\<open>set_base_audio_ignores_rate_sign\<close>).
\<close>

theorem set_base_audio_accepts_negative_rate:
  "shenidam_set_base_audio demo_env (shenidam_create 1 1 0 0 :: unit shenidam_t_impl)
     FORMAT_SINGLE [1] 1 (- 4)
   = Some (SUCCESS,
           (shenidam_create 1 1 0 0)
             \<lparr>base_num_samples := 0, base := Some [], base_real_sample_rate := - 4\<rparr>)"
proof -
  have c: "convert_to_samples demo_env FORMAT_SINGLE [1] 1 = Done (Some [1])"
    by (simp add: convert_to_samples_def read_samples_def ehmalloc_def demo_env_fields)
  have n: "normalize_samples [1] = [0]"
    by (simp add: normalize_samples_def normalize_sums_def)
  have "c_round (- (1 / 4)) = 0"
    unfolding c_round_def by (simp add: ceiling_eq_iff)
  then have s: "size_t_of_double (c_round (- (1 / 4))) = Some 0"
    by (simp add: size_t_of_double_def)
  have r: "resample_parallel demo_env [0] 1 (- (1 / 4)) 0 = Done ([], 0)"
    by (simp add: resample_parallel_def resample_def ehmalloc_def demo_env_fields)
  have b: "base_sample_rate (shenidam_create 1 1 0 0 :: unit shenidam_t_impl) = 1"
    "base (shenidam_create 1 1 0 0 :: unit shenidam_t_impl) = None"
    by (simp_all add: shenidam_create_def)
  have "set_base_audio_body demo_env (shenidam_create 1 1 0 0 :: unit shenidam_t_impl)
          FORMAT_SINGLE [1] 1 (- 4)
        = Done (SUCCESS,
                (shenidam_create 1 1 0 0)
                  \<lparr>base_num_samples := 0, base := Some [], base_real_sample_rate := - 4\<rparr>)"
    unfolding set_base_audio_body_def c b by (simp add: s n r)
  then show ?thesis
    by (simp add: shenidam_set_base_audio_def b)
qed

lemma count_loop_None: "count_loop len cur n = None"
proof (induction len cur n rule: count_loop.induct)
  case (1 len cur n)
  show ?case
  proof (cases "len < cur")
    case True
    then show ?thesis by (subst count_loop.simps) simp
  next
    case False
    with 1 have "count_loop len (cur + 1) (n + 1) = None" by simp
    with False show ?thesis by (subst count_loop.simps) simp
  qed
qed

text \<open>
  C10. With a NULL callback \<^verbatim>\<open>shenidam_add_frequential_filter\<close> returns \<open>INVALID_ARGUMENT\<close>
  and leaves the session unchanged, as claimed. With any other callback the claim has it
  append the pair to the chain. The code's counting loop compares the cursor itself with
  NULL instead of the entry it points to, so it never stops at the terminating entry
  and walks the cursor off the array: the call has no defined result, for any session
  and any callback, and so appends the pair in no defined way.
\<close>

theorem add_frequential_filter_never_appends:
  "shenidam_add_frequential_filter impl None data = Some (INVALID_ARGUMENT, impl)
   \<and> shenidam_add_frequential_filter impl (Some cb) data = None"
  by (simp add: shenidam_add_frequential_filter_def count_loop_None)

end
